theory Spec2Isabelle
  imports Complex_Main
begin

section \<open>Email task manager: the ingestion pipeline\<close>

text \<open>
  A shallow embedding of the backend of the email task manager (Python, Flask,
  SQLAlchemy). Python strings are lists of characters (\<open>string\<close>), with a character
  standing for a code point below 256; \<open>None\<close> is the \<open>None\<close> of \<open>option\<close>; an exception is
  a value of the type \<open>exn\<close>, and a function that may raise returns \<open>exn + 'a\<close>.
\<close>

subsection \<open>utils/rate\_limiter.py\<close>

text \<open>
  \<open>RateLimiter.clients\<close> is a \<open>defaultdict(deque)\<close>: every key has a queue, empty until
  something is appended, so the dictionary is a total function. \<open>time.time()\<close> is the
  argument \<open>now\<close>.
\<close>

type_synonym clients = "string \<Rightarrow> real list"

text \<open>The \<open>while\<close> loop of \<open>is_allowed\<close>: pop the head while it is older than the cutoff.\<close>

fun clean_old :: "real \<Rightarrow> real list \<Rightarrow> real list" where
  "clean_old cutoff [] = []"
| "clean_old cutoff (t # ts) = (if t < cutoff then clean_old cutoff ts else t # ts)"

definition is_allowed :: "clients \<Rightarrow> real \<Rightarrow> string \<Rightarrow> int \<Rightarrow> int \<Rightarrow> clients \<times> bool" where
  "is_allowed cl now client_id limit window =
     (let q = clean_old (now - of_int window) (cl client_id) in
      if int (length q) \<ge> limit then (cl(client_id := q), False)
      else (cl(client_id := q @ [now]), True))"

text \<open>Successive calls of \<open>is_allowed\<close> for one key, at the given times; the answers in order.\<close>

fun is_allowed_calls :: "clients \<Rightarrow> string \<Rightarrow> int \<Rightarrow> int \<Rightarrow> real list \<Rightarrow> clients \<times> bool list" where
  "is_allowed_calls cl client_id limit window [] = (cl, [])"
| "is_allowed_calls cl client_id limit window (now # nows) =
     (let (cl1, ok) = is_allowed cl now client_id limit window;
          (cl2, oks) = is_allowed_calls cl1 client_id limit window nows
      in (cl2, ok # oks))"

subsection \<open>Python values\<close>

text \<open>
  The exceptions the modelled code raises or lets through. \<open>HttpError\<close> is the Gmail
  client's, \<open>RefreshError\<close> the credential refresh's, \<open>IntegrityError\<close> the database's,
  \<open>InvalidToken\<close> the cipher's, \<open>BinasciiError\<close> the base64 decoder's; each carries the
  text that \<open>str(e)\<close> gives.
\<close>

datatype exn =
    is_ValidationError: ValidationError string
  | JSONDecodeError string
  | AttributeError string
  | TypeError string
  | KeyError string
  | BinasciiError string
  | HttpError string
  | RefreshError string
  | IntegrityError string
  | InvalidToken string
  | UnicodeError string
  | PyException string

fun str_exn :: "exn \<Rightarrow> string" where
  "str_exn (ValidationError m) = m"
| "str_exn (JSONDecodeError m) = m"
| "str_exn (AttributeError m) = m"
| "str_exn (TypeError m) = m"
| "str_exn (KeyError m) = m"
| "str_exn (BinasciiError m) = m"
| "str_exn (HttpError m) = m"
| "str_exn (RefreshError m) = m"
| "str_exn (IntegrityError m) = m"
| "str_exn (InvalidToken m) = m"
| "str_exn (UnicodeError m) = m"
| "str_exn (PyException m) = m"

text \<open>\<open>str.isspace\<close> on the code points below 256, and \<open>str.strip()\<close>.\<close>

definition isspace :: "char \<Rightarrow> bool" where
  "isspace c = (let n = (of_char c :: nat) in
     (9 \<le> n \<and> n \<le> 13) \<or> (28 \<le> n \<and> n \<le> 32) \<or> n = 133 \<or> n = 160)"

definition strip :: "string \<Rightarrow> string" where
  "strip s = rev (dropWhile isspace (rev (dropWhile isspace s)))"

definition startswith :: "string \<Rightarrow> string \<Rightarrow> bool" where
  "startswith s p = (take (length p) s = p)"

definition endswith :: "string \<Rightarrow> string \<Rightarrow> bool" where
  "endswith s p = (length p \<le> length s \<and> drop (length s - length p) s = p)"

text \<open>\<open>'; '.join(errors)\<close>.\<close>

fun join :: "string \<Rightarrow> string list \<Rightarrow> string" where
  "join sep [] = []"
| "join sep [x] = x"
| "join sep (x # y # ys) = x @ sep @ join sep (y # ys)"

text \<open>
  \<open>html.escape(s)\<close> with its default \<open>quote=True\<close>: the ampersand is replaced first, so
  the five replacements amount to one pass over the characters.
\<close>

fun escape_char :: "char \<Rightarrow> string" where
  "escape_char c =
     (if c = CHR ''&'' then ''&amp;''
      else if c = CHR ''<'' then ''&lt;''
      else if c = CHR ''>'' then ''&gt;''
      else if c = CHR 0x22 then ''&quot;''
      else if c = CHR 0x27 then ''&#x27;''
      else [c])"

definition html_escape :: "string \<Rightarrow> string" where
  "html_escape s = concat (map escape_char s)"

subsection \<open>utils/validators.py\<close>

definition sanitize_text :: "string \<Rightarrow> nat option \<Rightarrow> string" where
  "sanitize_text text max_length =
     (if text = [] then []
      else let sanitized = html_escape (strip text) in
        case max_length of
          None \<Rightarrow> sanitized
        | Some n \<Rightarrow> if n \<noteq> 0 \<and> length sanitized > n then take n sanitized else sanitized)"

definition valid_priorities :: "string list" where
  "valid_priorities = [''High'', ''Medium'', ''Low'']"

definition valid_categories :: "string list" where
  "valid_categories = [''Follow-up'', ''Meeting Prep'', ''Purchase'', ''General'',
     ''Review'', ''Approval'', ''Schedule'', ''Research'']"

definition validate_priority :: "string \<Rightarrow> bool" where
  "validate_priority priority = (priority \<in> set valid_priorities)"

definition validate_category :: "string \<Rightarrow> bool" where
  "validate_category category = (category \<in> set valid_categories)"

record email_content =
  c_subject :: string
  c_body :: string

definition validate_email_content :: "string \<Rightarrow> string \<Rightarrow> exn + email_content" where
  "validate_email_content subject body =
     (let errors =
            (if subject = [] \<or> length (strip subject) = 0 then [''Subject is required'']
             else if length subject > 500 then [''Subject too long (max 500 characters)'']
             else [])
          @ (if body \<noteq> [] \<and> length body > 50000 then [''Email body too long (max 50KB)'']
             else [])
      in if errors \<noteq> [] then Inl (ValidationError (join ''; '' errors))
         else Inr \<lparr>c_subject = sanitize_text subject (Some 500),
                   c_body = (if body \<noteq> [] then sanitize_text body (Some 50000) else [])\<rparr>)"

text \<open>
  The dictionary with the keys \<open>description\<close>, \<open>priority\<close> and \<open>category\<close>, which both
  \<open>_parse_ai_response\<close> and \<open>validate_task_data\<close> build.
\<close>

record task_data =
  td_description :: string
  td_priority :: string
  td_category :: string

text \<open>
  An optional string in a condition, and in \<open>x or default\<close>: \<open>None\<close> and the empty
  string are false.
\<close>

definition truthy :: "string option \<Rightarrow> bool" where
  "truthy v = (case v of None \<Rightarrow> False | Some s \<Rightarrow> s \<noteq> [])"

definition or_default :: "string option \<Rightarrow> string \<Rightarrow> string" where
  "or_default v d = (case v of None \<Rightarrow> d | Some s \<Rightarrow> if s = [] then d else s)"

definition validate_task_data :: "string \<Rightarrow> string option \<Rightarrow> string option \<Rightarrow> exn + task_data" where
  "validate_task_data description priority category =
     (let errors =
            (if description = [] \<or> length (strip description) = 0
               then [''Task description is required'']
             else if length description > 1000
               then [''Task description too long (max 1000 characters)'']
             else [])
          @ (if truthy priority \<and> \<not> validate_priority (the priority)
               then [''Invalid priority. Must be High, Medium, or Low''] else [])
          @ (if truthy category \<and> \<not> validate_category (the category)
               then [''Invalid category''] else [])
      in if errors \<noteq> [] then Inl (ValidationError (join ''; '' errors))
         else Inr \<lparr>td_description = sanitize_text description (Some 1000),
                   td_priority = or_default priority ''Medium'',
                   td_category = or_default category ''General''\<rparr>)"

subsection \<open>services/ai\_service.py\<close>

text \<open>
  What \<open>json.loads\<close> returns. A dictionary is an association list read with \<open>map_of\<close>.
  \<open>json.loads\<close> itself is a parameter of the functions below: a function from the text
  to the value, or to the \<open>JSONDecodeError\<close> it raises.
\<close>

datatype json =
    JNull
  | JBool bool
  | JNum real
  | JStr string
  | JArr "json list"
  | JObj "(string \<times> json) list"

text \<open>\<open>for task in tasks_data\<close>: what the iteration yields, or the \<open>TypeError\<close>.\<close>

fun py_iter :: "json \<Rightarrow> exn + json list" where
  "py_iter (JArr xs) = Inr xs"
| "py_iter (JObj kvs) = Inr (map (\<lambda>kv. JStr (fst kv)) kvs)"
| "py_iter (JStr s) = Inr (map (\<lambda>c. JStr [c]) s)"
| "py_iter JNull = Inl (TypeError ''object is not iterable'')"
| "py_iter (JBool b) = Inl (TypeError ''object is not iterable'')"
| "py_iter (JNum n) = Inl (TypeError ''object is not iterable'')"

text \<open>\<open>task.get('description', '').strip()\<close>: only a string has \<open>strip\<close>.\<close>

fun py_strip :: "json \<Rightarrow> exn + string" where
  "py_strip (JStr s) = Inr (strip s)"
| "py_strip v = Inl (AttributeError ''object has no attribute strip'')"

text \<open>
  \<open>if x not in allowed: x = default\<close>, for a value \<open>x\<close> of any JSON type: only a string
  can equal a member of the list.
\<close>

fun clamp_to :: "string list \<Rightarrow> string \<Rightarrow> json \<Rightarrow> string" where
  "clamp_to allowed d (JStr s) = (if s \<in> set allowed then s else d)"
| "clamp_to allowed d v = d"

text \<open>
  One round of the loop of \<open>_parse_ai_response\<close>: the dictionary to append, \<open>None\<close> when
  the element is passed over, or the exception that ends the loop.
\<close>

fun parse_task :: "json \<Rightarrow> exn + task_data option" where
  "parse_task (JObj kvs) =
     (case map_of kvs ''description'' of
        None \<Rightarrow> Inr None
      | Some d \<Rightarrow>
          (case py_strip d of
             Inl e \<Rightarrow> Inl e
           | Inr description \<Rightarrow>
               let priority = clamp_to valid_priorities ''Medium''
                     (case map_of kvs ''priority'' of None \<Rightarrow> JStr ''Medium'' | Some v \<Rightarrow> v);
                   category = clamp_to valid_categories ''General''
                     (case map_of kvs ''category'' of None \<Rightarrow> JStr ''General'' | Some v \<Rightarrow> v)
               in if description \<noteq> []
                  then Inr (Some \<lparr>td_description = description, td_priority = priority,
                                   td_category = category\<rparr>)
                  else Inr None))"
| "parse_task v = Inr None"

fun parse_tasks_loop :: "json list \<Rightarrow> task_data list \<Rightarrow> exn + task_data list" where
  "parse_tasks_loop [] valid_tasks = Inr valid_tasks"
| "parse_tasks_loop (task # rest) valid_tasks =
     (case parse_task task of
        Inl e \<Rightarrow> Inl e
      | Inr None \<Rightarrow> parse_tasks_loop rest valid_tasks
      | Inr (Some td) \<Rightarrow> parse_tasks_loop rest (valid_tasks @ [td]))"

text \<open>The text handed to \<open>json.loads\<close>: stripped, the code fence removed, stripped again.\<close>

definition unfence :: "string \<Rightarrow> string" where
  "unfence response_text =
     (let r1 = strip response_text;
          r2 = (if startswith r1 ''```json'' then drop 7 r1 else r1);
          r3 = (if endswith r2 ''```'' then take (length r2 - 3) r2 else r2)
      in strip r3)"

text \<open>The \<open>try\<close> block of \<open>_parse_ai_response\<close>; the response text may be \<open>None\<close>.\<close>

definition parse_ai_try :: "(string \<Rightarrow> exn + json) \<Rightarrow> string option \<Rightarrow> exn + task_data list" where
  "parse_ai_try json_loads response_text =
     (case response_text of
        None \<Rightarrow> Inl (AttributeError ''NoneType object has no attribute strip'')
      | Some r \<Rightarrow>
          (case json_loads (unfence r) of
             Inl e \<Rightarrow> Inl e
           | Inr tasks_data \<Rightarrow>
               (case py_iter tasks_data of
                  Inl e \<Rightarrow> Inl e
                | Inr ts \<Rightarrow> parse_tasks_loop ts [])))"

text \<open>Both \<open>except\<close> clauses return the empty list.\<close>

definition parse_ai_response :: "(string \<Rightarrow> exn + json) \<Rightarrow> string option \<Rightarrow> task_data list" where
  "parse_ai_response json_loads response_text =
     (case parse_ai_try json_loads response_text of Inl e \<Rightarrow> [] | Inr ts \<Rightarrow> ts)"

text \<open>
  \<open>extract_tasks\<close>. The completion service is a parameter: a function of the subject, the
  sender and the first 2000 characters of the body (all that the prompt is built from)
  to the text of the answer, which may be \<open>None\<close>, or to the exception the call raises.
  Whatever is raised, the result is the empty list.
\<close>

definition extract_tasks ::
  "(string \<Rightarrow> string \<Rightarrow> string \<Rightarrow> exn + string option) \<Rightarrow> (string \<Rightarrow> exn + json)
     \<Rightarrow> string \<Rightarrow> string \<Rightarrow> string \<Rightarrow> task_data list" where
  "extract_tasks completion json_loads subject body sender =
     (case completion subject sender (take 2000 body) of
        Inl e \<Rightarrow> []
      | Inr content \<Rightarrow> parse_ai_response json_loads content)"

subsection \<open>models: the tables\<close>

text \<open>
  The rows of the tables \<open>users\<close>, \<open>emails\<close> and \<open>tasks\<close>. Times are integers. Of a user
  only the columns read here are kept.
\<close>

record user_row =
  u_id :: nat
  u_gmail_connected :: bool

record email_row =
  e_id :: nat
  e_user_id :: nat
  e_gmail_id :: string
  e_thread_id :: "string option"
  e_subject :: string
  e_sender :: string
  e_sender_email :: string
  e_body :: string
  e_snippet :: string
  e_processed :: bool
  e_processed_at :: "int option"
  e_received_at :: int
  e_created_at :: int
  e_updated_at :: int

record task_row =
  t_id :: nat
  t_user_id :: nat
  t_email_id :: nat
  t_description :: string
  t_sender :: string
  t_priority :: string
  t_category :: string
  t_completed :: bool
  t_completed_at :: "int option"
  t_created_at :: int
  t_updated_at :: int

record db =
  db_users :: "user_row list"
  db_emails :: "email_row list"
  db_tasks :: "task_row list"

text \<open>\<open>Email.mark_processed\<close>, on the row with the given id.\<close>

definition mark_processed :: "int \<Rightarrow> nat \<Rightarrow> db \<Rightarrow> db" where
  "mark_processed now eid d =
     d\<lparr>db_emails := map (\<lambda>e. if e_id e = eid
                               then e\<lparr>e_processed := True, e_processed_at := Some now,
                                       e_updated_at := now\<rparr>
                               else e) (db_emails d)\<rparr>"

text \<open>An integer primary key: one more than the largest in the table.\<close>

definition next_id :: "nat list \<Rightarrow> nat" where
  "next_id ids = Suc (fold max ids 0)"

text \<open>
  \<open>db.session.add(email_record); db.session.flush()\<close>. The column \<open>gmail_id\<close> is declared
  \<open>unique=True\<close>: the insert fails when any row of the table, of whatever user, has the
  same \<open>gmail_id\<close>.
\<close>

definition add_email :: "db \<Rightarrow> email_row \<Rightarrow> exn + (db \<times> nat)" where
  "add_email d r =
     (if e_gmail_id r \<in> set (map e_gmail_id (db_emails d))
      then Inl (IntegrityError ''UNIQUE constraint failed: emails.gmail_id'')
      else let i = next_id (map e_id (db_emails d))
           in Inr (d\<lparr>db_emails := db_emails d @ [r\<lparr>e_id := i\<rparr>]\<rparr>, i))"

definition add_task :: "db \<Rightarrow> task_row \<Rightarrow> db" where
  "add_task d r =
     d\<lparr>db_tasks := db_tasks d @ [r\<lparr>t_id := next_id (map t_id (db_tasks d))\<rparr>]\<rparr>"

subsection \<open>routes/emails.py\<close>

text \<open>A message as \<open>get_unprocessed_emails\<close> returns it.\<close>

record email_data =
  m_gmail_id :: string
  m_thread_id :: "string option"
  m_subject :: string
  m_sender :: string
  m_sender_email :: string
  m_body :: string
  m_snippet :: string
  m_received_at :: int

text \<open>
  What the request handler does not compute itself: the construction of the Gmail
  service for a user and of the AI service (each may raise), the configured
  \<open>MAX_EMAILS_PER_PROCESS\<close>, the fetch of the messages (may raise), the completion
  service, \<open>json.loads\<close> and the clock. One reading of the clock stands for all the
  readings of \<open>datetime.utcnow()\<close> during a request: the times are stored and never
  compared.
\<close>

record env =
  gmail_build :: "user_row \<Rightarrow> exn option"
  ai_init :: "exn option"
  max_emails :: nat
  gmail_fetch :: "user_row \<Rightarrow> nat \<Rightarrow> exn + email_data list"
  ai_complete :: "string \<Rightarrow> string \<Rightarrow> string \<Rightarrow> exn + string option"
  json_loads :: "string \<Rightarrow> exn + json"
  utcnow :: int

text \<open>The JSON bodies of the responses, and a response with its status code.\<close>

datatype body =
    ErrorBody string
  | ProcessedBody string nat nat
  | RateLimitBody string int int

type_synonym response = "body \<times> nat"

definition existing_email :: "db \<Rightarrow> string \<Rightarrow> nat \<Rightarrow> email_row option" where
  "existing_email d gid uid = find (\<lambda>e. e_gmail_id e = gid \<and> e_user_id e = uid) (db_emails d)"

definition new_email :: "nat \<Rightarrow> email_data \<Rightarrow> email_content \<Rightarrow> int \<Rightarrow> email_row" where
  "new_email uid m vc now =
     \<lparr>e_id = 0, e_user_id = uid, e_gmail_id = m_gmail_id m, e_thread_id = m_thread_id m,
      e_subject = c_subject vc, e_sender = take 255 (m_sender m),
      e_sender_email = take 255 (m_sender_email m), e_body = c_body vc,
      e_snippet = take 500 (m_snippet m), e_processed = False, e_processed_at = None,
      e_received_at = m_received_at m, e_created_at = now, e_updated_at = now\<rparr>"

definition new_task :: "nat \<Rightarrow> nat \<Rightarrow> email_data \<Rightarrow> task_data \<Rightarrow> int \<Rightarrow> task_row" where
  "new_task uid eid m v now =
     \<lparr>t_id = 0, t_user_id = uid, t_email_id = eid, t_description = td_description v,
      t_sender = take 255 (m_sender m), t_priority = td_priority v,
      t_category = td_category v, t_completed = False, t_completed_at = None,
      t_created_at = now, t_updated_at = now\<rparr>"

text \<open>
  The inner loop, \<open>for task_data in tasks\<close>: the session and \<open>tasks_created\<close> go in and
  come out; a \<open>ValidationError\<close> passes the task over, another exception leaves the loop.
\<close>

fun add_tasks :: "int \<Rightarrow> nat \<Rightarrow> nat \<Rightarrow> email_data \<Rightarrow> task_data list \<Rightarrow> db \<times> nat
    \<Rightarrow> exn + (db \<times> nat)" where
  "add_tasks now uid eid m [] st = Inr st"
| "add_tasks now uid eid m (td # tds) (d, tasks_created) =
     (case validate_task_data (td_description td) (Some (td_priority td)) (Some (td_category td)) of
        Inl e \<Rightarrow>
          if is_ValidationError e then add_tasks now uid eid m tds (d, tasks_created)
          else Inl e
      | Inr v \<Rightarrow>
          add_tasks now uid eid m tds (add_task d (new_task uid eid m v now), Suc tasks_created))"

text \<open>
  The outer loop, \<open>for email_data in new_emails\<close>, on the session, \<open>processed_count\<close> and
  \<open>tasks_created\<close>. The queries of the session see the rows added earlier in the loop.
\<close>

fun process_loop :: "env \<Rightarrow> nat \<Rightarrow> email_data list \<Rightarrow> db \<times> nat \<times> nat \<Rightarrow> exn + (db \<times> nat \<times> nat)" where
  "process_loop ev uid [] st = Inr st"
| "process_loop ev uid (m # ms) (d, processed_count, tasks_created) =
     (if existing_email d (m_gmail_id m) uid \<noteq> None
      then process_loop ev uid ms (d, processed_count, tasks_created)
      else
        case validate_email_content (m_subject m) (m_body m) of
          Inl e \<Rightarrow>
            if is_ValidationError e
            then process_loop ev uid ms (d, processed_count, tasks_created)
            else Inl e
        | Inr vc \<Rightarrow>
            (case add_email d (new_email uid m vc (utcnow ev)) of
               Inl e \<Rightarrow> Inl e
             | Inr (d1, eid) \<Rightarrow>
                 (case add_tasks (utcnow ev) uid eid m
                         (extract_tasks (ai_complete ev) (json_loads ev)
                            (m_subject m) (m_body m) (m_sender m))
                         (d1, tasks_created) of
                    Inl e \<Rightarrow> Inl e
                  | Inr (d2, tasks_created2) \<Rightarrow>
                      process_loop ev uid ms
                        (mark_processed (utcnow ev) eid d2, Suc processed_count, tasks_created2))))"

text \<open>The \<open>try\<close> block of \<open>process_emails\<close>, up to the commit.\<close>

definition process_try :: "env \<Rightarrow> db \<Rightarrow> user_row \<Rightarrow> exn + (db \<times> nat \<times> nat)" where
  "process_try ev d user =
     (case gmail_build ev user of
        Some e \<Rightarrow> Inl e
      | None \<Rightarrow>
          (case ai_init ev of
             Some e \<Rightarrow> Inl e
           | None \<Rightarrow>
               (case gmail_fetch ev user (max_emails ev) of
                  Inl e \<Rightarrow> Inl e
                | Inr new_emails \<Rightarrow> process_loop ev (u_id user) new_emails (d, 0, 0))))"

text \<open>
  \<open>process_emails\<close>: the database after the request and the response. The only commit
  follows the loop; \<open>except Exception\<close> rolls the session back, which leaves the database
  as it was before the request.
\<close>

definition process_emails :: "env \<Rightarrow> db \<Rightarrow> nat \<Rightarrow> db \<times> response" where
  "process_emails ev d current_user_id =
     (case find (\<lambda>u. u_id u = current_user_id) (db_users d) of
        None \<Rightarrow> (d, (ErrorBody ''Gmail not connected'', 400))
      | Some user \<Rightarrow>
          if \<not> u_gmail_connected user then (d, (ErrorBody ''Gmail not connected'', 400))
          else
            (case process_try ev d user of
               Inl e \<Rightarrow> (d, (ErrorBody (str_exn e), 500))
             | Inr (d1, processed_count, tasks_created) \<Rightarrow>
                 (d1, (ProcessedBody ''Emails processed successfully''
                         processed_count tasks_created, 200))))"

text \<open>The decimal digits of a user id, for the key \<open>user_<id>\<close> of the rate limiter.\<close>

fun digits :: "nat \<Rightarrow> string" where
  "digits n = (if n < 10 then [''0123456789'' ! n]
               else digits (n div 10) @ [''0123456789'' ! (n mod 10)])"

declare digits.simps [simp del]

text \<open>
  The decorator \<open>ratelimit(limit, window, per='user')\<close> around a handler \<open>f\<close> that works on
  a state \<open>s\<close>: a refused request gets the status 429 and \<open>f\<close> is not run.
\<close>

definition ratelimit ::
  "int \<Rightarrow> int \<Rightarrow> nat \<Rightarrow> real \<Rightarrow> ('s \<Rightarrow> 's \<times> response) \<Rightarrow> clients \<times> 's \<Rightarrow> (clients \<times> 's) \<times> response" where
  "ratelimit limit window current_user_id now f st =
     (case is_allowed (fst st) now (''user_'' @ digits current_user_id) limit window of
        (cl, allowed) \<Rightarrow>
          if \<not> allowed then ((cl, snd st), (RateLimitBody ''Rate limit exceeded'' limit window, 429))
          else (case f (snd st) of (s, r) \<Rightarrow> ((cl, s), r)))"

text \<open>The route \<open>/process\<close>: \<open>process_emails\<close> under \<open>ratelimit(limit=5, window=300, per='user')\<close>.\<close>

definition process_route :: "env \<Rightarrow> real \<Rightarrow> nat \<Rightarrow> clients \<times> db \<Rightarrow> (clients \<times> db) \<times> response" where
  "process_route ev now current_user_id st =
     ratelimit 5 300 current_user_id now (\<lambda>d. process_emails ev d current_user_id) st"

text \<open>When \<open>validate_task_data\<close> raises: the conditions that put a message into \<open>errors\<close>.\<close>

definition task_data_bad :: "string \<Rightarrow> string option \<Rightarrow> string option \<Rightarrow> bool" where
  "task_data_bad description priority category =
     (description = [] \<or> strip description = [] \<or> length description > 1000
         \<or> (truthy priority \<and> \<not> validate_priority (the priority))
         \<or> (truthy category \<and> \<not> validate_category (the category)))"

text \<open>What holds of every row that the loop over the tasks of a message stores.\<close>

definition task_row_ok :: "nat \<Rightarrow> nat \<Rightarrow> task_row \<Rightarrow> bool" where
  "task_row_ok uid eid t =
     (t_user_id t = uid \<and> t_email_id t = eid \<and> t_description t \<noteq> []
      \<and> length (t_description t) \<le> 1000
      \<and> t_priority t \<in> set valid_priorities \<and> t_category t \<in> set valid_categories)"

text \<open>
  The pairs of \<open>gmail_id\<close> and \<open>user_id\<close> of the rows of \<open>emails\<close>, in table order: what
  the duplicate check of \<open>process_emails\<close> reads.
\<close>

definition email_keys :: "db \<Rightarrow> (string \<times> nat) list" where
  "email_keys d = map (\<lambda>e. (e_gmail_id e, e_user_id e)) (db_emails d)"

subsection \<open>Examples\<close>

text \<open>
  A small database, messages and an environment to run the functions on. User 1 has
  stored the message \<open>g2\<close>; user 2 has stored nothing. The completion service of the
  example answers with an empty array inside a code fence, and the example's stand-in
  for \<open>json.loads\<close> reads that text and refuses every other.
\<close>

definition example_db :: db where
  "example_db =
     \<lparr>db_users = [\<lparr>u_id = 1, u_gmail_connected = True\<rparr>, \<lparr>u_id = 2, u_gmail_connected = True\<rparr>],
      db_emails = [\<lparr>e_id = 1, e_user_id = 1, e_gmail_id = ''g2'', e_thread_id = None,
                    e_subject = ''Hi'', e_sender = ''Jane'', e_sender_email = ''j@co.com'',
                    e_body = [], e_snippet = [], e_processed = True,
                    e_processed_at = Some 900, e_received_at = 100, e_created_at = 900,
                    e_updated_at = 900\<rparr>],
      db_tasks = []\<rparr>"

definition example_message :: "string \<Rightarrow> email_data" where
  "example_message gid =
     \<lparr>m_gmail_id = gid, m_thread_id = None, m_subject = ''Hi'', m_sender = ''Jane'',
      m_sender_email = ''j@co.com'', m_body = [], m_snippet = [], m_received_at = 100\<rparr>"

definition example_loads :: "string \<Rightarrow> exn + json" where
  "example_loads s = (if s = ''[]'' then Inr (JArr []) else Inl (JSONDecodeError ''Expecting value''))"

definition example_env :: "email_data list \<Rightarrow> env" where
  "example_env ms =
     \<lparr>gmail_build = (\<lambda>u. None), ai_init = None, max_emails = 50,
      gmail_fetch = (\<lambda>u n. Inr (take n ms)),
      ai_complete = (\<lambda>subject sender body. Inr (Some ''```json [] ```'')),
      json_loads = example_loads, utcnow = 1000\<rparr>"

subsection \<open>services/gmail\_service.py: the body of a message\<close>

text \<open>
  The payload of a message is JSON, so \<open>_extract_body\<close> is modelled on \<open>json\<close> values with
  Python's dynamic checks written out: \<open>x[k]\<close> and \<open>k in x\<close> for a string \<open>k\<close>.
\<close>

fun getitem :: "json \<Rightarrow> string \<Rightarrow> exn + json" where
  "getitem (JObj kvs) k = (case map_of kvs k of None \<Rightarrow> Inl (KeyError k) | Some v \<Rightarrow> Inr v)"
| "getitem v k = Inl (TypeError ''indices must be integers'')"

text \<open>\<open>k in s\<close> for two strings: \<open>k\<close> occurs in \<open>s\<close> as a run of characters.\<close>

fun occurs_in :: "string \<Rightarrow> string \<Rightarrow> bool" where
  "occurs_in k [] = (k = [])"
| "occurs_in k (c # cs) = (take (length k) (c # cs) = k \<or> occurs_in k cs)"

fun contains :: "json \<Rightarrow> string \<Rightarrow> exn + bool" where
  "contains (JObj kvs) k = Inr (map_of kvs k \<noteq> None)"
| "contains (JArr xs) k = Inr (JStr k \<in> set xs)"
| "contains (JStr s) k = Inr (occurs_in k s)"
| "contains v k = Inl (TypeError ''argument is not iterable'')"

text \<open>
  \<open>re.sub('<[^<]+?>', '', s)\<close>. A match starts at a \<open><\<close>, takes one character that is
  not \<open><\<close>, and then runs to the first \<open>>\<close> if no \<open><\<close> comes before it.
  \<open>find_close\<close> and \<open>match_tag\<close> give the text after the match.
\<close>

fun find_close :: "string \<Rightarrow> string option" where
  "find_close [] = None"
| "find_close (c # cs) =
     (if c = CHR ''>'' then Some cs else if c = CHR ''<'' then None else find_close cs)"

fun match_tag :: "string \<Rightarrow> string option" where
  "match_tag [] = None"
| "match_tag (c # cs) = (if c = CHR ''<'' then None else find_close cs)"

lemma find_close_shorter: "find_close cs = Some rest \<Longrightarrow> length rest < length cs"
  by (induction cs) (auto split: if_splits)

lemma match_tag_shorter: "match_tag cs = Some rest \<Longrightarrow> length rest < length cs"
  by (cases cs) (auto split: if_splits dest: find_close_shorter)

function strip_tags :: "string \<Rightarrow> string" where
  "strip_tags [] = []"
| "strip_tags (c # cs) =
     (if c = CHR ''<''
      then (case match_tag cs of Some rest \<Rightarrow> strip_tags rest | None \<Rightarrow> c # strip_tags cs)
      else c # strip_tags cs)"
  by pat_completeness auto
termination
  by (relation "measure length") (auto dest: match_tag_shorter)

text \<open>
  The loop over the parts of a multipart payload. The decoding of the data,
  \<open>base64.urlsafe_b64decode(x).decode('utf-8')\<close>, is the parameter \<open>dec\<close>. The result is
  \<open>Some\<close> of the text that a \<open>return\<close> inside the loop gives, or \<open>None\<close> when the loop
  comes to its end.
\<close>

fun extract_parts :: "(json \<Rightarrow> exn + string) \<Rightarrow> json list \<Rightarrow> exn + string option" where
  "extract_parts dec [] = Inr None"
| "extract_parts dec (part # rest) =
     (case getitem part ''mimeType'' of
        Inl e \<Rightarrow> Inl e
      | Inr mime \<Rightarrow>
          if mime = JStr ''text/plain'' then
            (case getitem part ''body'' of
               Inl e \<Rightarrow> Inl e
             | Inr b \<Rightarrow>
                 (case contains b ''data'' of
                    Inl e \<Rightarrow> Inl e
                  | Inr has_data \<Rightarrow>
                      if has_data then
                        (case getitem b ''data'' of
                           Inl e \<Rightarrow> Inl e
                         | Inr x \<Rightarrow> (case dec x of Inl e \<Rightarrow> Inl e | Inr s \<Rightarrow> Inr (Some s)))
                      else extract_parts dec rest))
          else if mime = JStr ''text/html'' then
            (case getitem part ''body'' of
               Inl e \<Rightarrow> Inl e
             | Inr b \<Rightarrow>
                 (case contains b ''data'' of
                    Inl e \<Rightarrow> Inl e
                  | Inr has_data \<Rightarrow>
                      if has_data then
                        (case getitem b ''data'' of
                           Inl e \<Rightarrow> Inl e
                         | Inr x \<Rightarrow>
                             (case dec x of
                                Inl e \<Rightarrow> Inl e
                              | Inr html_content \<Rightarrow> Inr (Some (strip (strip_tags html_content)))))
                      else extract_parts dec rest))
          else extract_parts dec rest)"

text \<open>The \<open>try\<close> block of \<open>_extract_body\<close>.\<close>

definition extract_body_try :: "(json \<Rightarrow> exn + string) \<Rightarrow> json \<Rightarrow> exn + string" where
  "extract_body_try dec payload =
     (case contains payload ''parts'' of
        Inl e \<Rightarrow> Inl e
      | Inr multipart \<Rightarrow>
          if multipart then
            (case getitem payload ''parts'' of
               Inl e \<Rightarrow> Inl e
             | Inr ps \<Rightarrow>
                 (case py_iter ps of
                    Inl e \<Rightarrow> Inl e
                  | Inr parts \<Rightarrow>
                      (case extract_parts dec parts of
                         Inl e \<Rightarrow> Inl e
                       | Inr (Some s) \<Rightarrow> Inr s
                       | Inr None \<Rightarrow> Inr [])))
          else
            (case getitem payload ''body'' of
               Inl e \<Rightarrow> Inl e
             | Inr b \<Rightarrow>
                 (case contains b ''data'' of
                    Inl e \<Rightarrow> Inl e
                  | Inr has_data \<Rightarrow>
                      if has_data then
                        (case getitem b ''data'' of Inl e \<Rightarrow> Inl e | Inr x \<Rightarrow> dec x)
                      else Inr [])))"

text \<open>\<open>_extract_body\<close>: \<open>except Exception\<close> returns the empty string.\<close>

definition extract_body :: "(json \<Rightarrow> exn + string) \<Rightarrow> json \<Rightarrow> string" where
  "extract_body dec payload = (case extract_body_try dec payload of Inl e \<Rightarrow> [] | Inr s \<Rightarrow> s)"

text \<open>
  A decoder to run the examples with: base64 in the URL-safe alphabet, in groups of
  four characters with \<open>=\<close> as padding, then UTF-8 for bytes below 128. On such data it
  gives what \<open>base64.urlsafe_b64decode(x).decode('utf-8')\<close> gives; all other data is
  refused here with an exception.
\<close>

definition b64_index :: "char \<Rightarrow> nat option" where
  "b64_index c =
     (let n = (of_char c :: nat) in
      if 65 \<le> n \<and> n \<le> 90 then Some (n - 65)
      else if 97 \<le> n \<and> n \<le> 122 then Some (n - 71)
      else if 48 \<le> n \<and> n \<le> 57 then Some (n + 4)
      else if c = CHR ''-'' then Some 62
      else if c = CHR ''_'' then Some 63
      else None)"

fun b64_bytes :: "string \<Rightarrow> nat list option" where
  "b64_bytes [] = Some []"
| "b64_bytes [a, b, c, d] =
     (case (b64_index a, b64_index b) of
        (Some i, Some j) \<Rightarrow>
          if c = CHR ''='' \<and> d = CHR ''='' then Some [(i * 4 + j div 16) mod 256]
          else (case b64_index c of
                  None \<Rightarrow> None
                | Some k \<Rightarrow>
                    if d = CHR ''='' then Some [(i * 4 + j div 16) mod 256, (j * 16 + k div 4) mod 256]
                    else (case b64_index d of
                            None \<Rightarrow> None
                          | Some l \<Rightarrow> Some [(i * 4 + j div 16) mod 256, (j * 16 + k div 4) mod 256,
                                             (k * 64 + l) mod 256]))
      | _ \<Rightarrow> None)"
| "b64_bytes (a # b # c # d # rest) =
     (case (b64_index a, b64_index b, b64_index c, b64_index d, b64_bytes rest) of
        (Some i, Some j, Some k, Some l, Some bs) \<Rightarrow>
          Some ([(i * 4 + j div 16) mod 256, (j * 16 + k div 4) mod 256, (k * 64 + l) mod 256] @ bs)
      | _ \<Rightarrow> None)"
| "b64_bytes cs = None"

definition example_decode :: "json \<Rightarrow> exn + string" where
  "example_decode x =
     (case x of
        JStr s \<Rightarrow>
          (case b64_bytes s of
             None \<Rightarrow> Inl (BinasciiError ''Incorrect padding'')
           | Some bs \<Rightarrow>
               if list_all (\<lambda>b. b < 128) bs then Inr (map char_of bs)
               else Inl (UnicodeError ''invalid start byte''))
      | _ \<Rightarrow> Inl (TypeError ''argument should be a bytes-like object or ASCII string''))"

subsection \<open>utils/encryption.py\<close>

text \<open>
  \<open>TokenEncryption\<close>. The cipher (Fernet, with the key derived at start) and the codec of
  \<open>str.encode()\<close> and \<open>bytes.decode()\<close> belong to libraries and are parameters: encryption
  takes the fresh randomness of a call as the argument \<open>seed\<close>, decryption and the codec
  may raise. Bytes are a list of characters as well.
\<close>

record crypto =
  fernet_encrypt :: "nat \<Rightarrow> string \<Rightarrow> string"
  fernet_decrypt :: "string \<Rightarrow> exn + string"
  str_encode :: "string \<Rightarrow> exn + string"
  bytes_decode :: "string \<Rightarrow> exn + string"

text \<open>\<open>encrypt_token\<close> has no \<open>try\<close>: what a library raises, it raises.\<close>

definition encrypt_token :: "crypto \<Rightarrow> nat \<Rightarrow> string option \<Rightarrow> exn + string option" where
  "encrypt_token lib seed token =
     (if \<not> truthy token then Inr None
      else case str_encode lib (the token) of
        Inl e \<Rightarrow> Inl e
      | Inr bs \<Rightarrow>
          (case bytes_decode lib (fernet_encrypt lib seed bs) of
             Inl e \<Rightarrow> Inl e
           | Inr t \<Rightarrow> Inr (Some t)))"

text \<open>The \<open>try\<close> block of \<open>decrypt_token\<close>, and \<open>decrypt_token\<close> with its \<open>except Exception\<close>.\<close>

definition decrypt_try :: "crypto \<Rightarrow> string \<Rightarrow> exn + string" where
  "decrypt_try lib encrypted_token =
     (case str_encode lib encrypted_token of
        Inl e \<Rightarrow> Inl e
      | Inr bs \<Rightarrow>
          (case fernet_decrypt lib bs of
             Inl e \<Rightarrow> Inl e
           | Inr plain \<Rightarrow> bytes_decode lib plain))"

definition decrypt_token :: "crypto \<Rightarrow> string option \<Rightarrow> string option" where
  "decrypt_token lib encrypted_token =
     (if \<not> truthy encrypted_token then None
      else case decrypt_try lib (the encrypted_token) of
        Inl e \<Rightarrow> None
      | Inr s \<Rightarrow> Some s)"

text \<open>
  A cipher and a codec to run the examples with: the token is a marker followed by the
  reversed plain text, and a text without the marker is refused; the codec is the one
  of ASCII text, where characters and bytes are the same.
\<close>

definition example_crypto :: crypto where
  "example_crypto =
     \<lparr>fernet_encrypt = (\<lambda>seed bs. ''gAAAAA'' @ rev bs),
      fernet_decrypt = (\<lambda>t. if take 6 t = ''gAAAAA'' then Inr (rev (drop 6 t))
                             else Inl (InvalidToken [])),
      str_encode = Inr, bytes_decode = Inr\<rparr>"

text \<open>
  A part that the loop of \<open>_extract_body\<close> passes over without leaving: its \<open>mimeType\<close> is
  neither \<open>text/plain\<close> nor \<open>text/html\<close>, or it is one of the two and its \<open>body\<close> has no
  \<open>data\<close>.
\<close>

definition passed_over :: "json \<Rightarrow> bool" where
  "passed_over part =
     (case getitem part ''mimeType'' of
        Inl e \<Rightarrow> False
      | Inr mime \<Rightarrow>
          if mime = JStr ''text/plain'' \<or> mime = JStr ''text/html''
          then (case getitem part ''body'' of
                  Inl e \<Rightarrow> False
                | Inr b \<Rightarrow> contains b ''data'' = Inr False)
          else True)"

text \<open>The parts and payloads of the examples.\<close>

definition example_part :: "string \<Rightarrow> string \<Rightarrow> json" where
  "example_part mime x = JObj [(''mimeType'', JStr mime), (''body'', JObj [(''data'', JStr x)])]"

definition example_payload :: "json list \<Rightarrow> json" where
  "example_payload ps = JObj [(''mimeType'', JStr ''multipart/alternative''), (''parts'', JArr ps)]"

section \<open>Properties\<close>

subsection \<open>Rate limiter\<close>

lemma clean_old_sorted_filter:
  "sorted ts \<Longrightarrow> clean_old cutoff ts = filter (\<lambda>t. \<not> t < cutoff) ts"
proof (induction ts)
  case Nil
  show ?case by simp
next
  case (Cons t ts)
  show ?case
  proof (cases "t < cutoff")
    case True
    with Cons show ?thesis by simp
  next
    case False
    with Cons.prems have "\<forall>u \<in> set (t # ts). \<not> u < cutoff" by auto
    hence "filter (\<lambda>t. \<not> t < cutoff) (t # ts) = t # ts"
      by (simp only: filter_True)
    with False show ?thesis by simp
  qed
qed

lemma clean_old_suffix: "\<exists>old. ts = old @ clean_old cutoff ts \<and> (\<forall>t \<in> set old. t < cutoff)"
proof (induction ts)
  case Nil
  show ?case by simp
next
  case (Cons t ts)
  show ?case
  proof (cases "t < cutoff")
    case True
    from Cons obtain old where "ts = old @ clean_old cutoff ts" "\<forall>t \<in> set old. t < cutoff"
      by blast
    with True have "t # ts = (t # old) @ clean_old cutoff (t # ts) \<and> (\<forall>u \<in> set (t # old). u < cutoff)"
      by simp
    thus ?thesis by blast
  next
    case False
    hence "t # ts = [] @ clean_old cutoff (t # ts) \<and> (\<forall>u \<in> set []. u < cutoff)" by simp
    thus ?thesis by blast
  qed
qed

lemma clean_old_sorted: "sorted ts \<Longrightarrow> sorted (clean_old cutoff ts)"
  by (induction ts) auto

text \<open>
  Under a clock that never runs backwards the queue of a key stays in time order.
\<close>

lemma is_allowed_keeps_sorted:
  assumes "sorted (cl k)" and "\<forall>t \<in> set (cl k). t \<le> now"
  shows "sorted (fst (is_allowed cl now k limit window) k)"
proof -
  let ?q = "clean_old (now - of_int window) (cl k)"
  obtain old where "cl k = old @ ?q" using clean_old_suffix by blast
  hence "set ?q \<subseteq> set (cl k)" by (metis set_append sup_ge2)
  with assms(2) have "\<forall>t \<in> set ?q. t \<le> now" by blast
  moreover have "sorted ?q" using assms(1) by (rule clean_old_sorted)
  ultimately have "sorted (?q @ [now])" by (simp add: sorted_append)
  with \<open>sorted ?q\<close> show ?thesis by (simp add: is_allowed_def Let_def)
qed

text \<open>
  C3. The rate gate is a sliding window over the admission times of a key. With limit 5
  and window 300 seconds, ten calls at one time \<open>t\<close> (the claim's \<open>t = 0\<close> among them) on a
  key with no entries are answered yes five times and then no five times, and an eleventh
  call 301 seconds later is answered yes. On every call to a time-ordered queue the
  entries older than \<open>now - window\<close> are dropped, the call is admitted exactly when fewer
  than \<open>limit\<close> entries remain, and \<open>now\<close> is appended only on admission.
\<close>

theorem rate_gate_sliding_window:
  "snd (is_allowed_calls (cl(k := [])) k 5 300 (replicate 10 t))
     = [True, True, True, True, True, False, False, False, False, False]
   \<and> length (filter id (snd (is_allowed_calls (cl(k := [])) k 5 300 (replicate 10 t)))) = 5
   \<and> snd (is_allowed (fst (is_allowed_calls (cl(k := [])) k 5 300 (replicate 10 t)))
             (t + 301) k 5 300) = True
   \<and> (sorted (cl k) \<longrightarrow>
        is_allowed cl now k limit window =
          (let q = filter (\<lambda>u. \<not> u < now - of_int window) (cl k) in
           if int (length q) < limit then (cl(k := q @ [now]), True)
           else (cl(k := q), False)))"
proof -
  have run: "is_allowed_calls (cl(k := [])) k 5 300 (replicate 10 t)
      = (cl(k := [t, t, t, t, t]),
         [True, True, True, True, True, False, False, False, False, False])"
    by (simp add: numeral_eq_Suc is_allowed_def)
  have last: "snd (is_allowed (cl(k := [t, t, t, t, t])) (t + 301) k 5 300) = True"
    by (simp add: is_allowed_def)
  have gen: "sorted (cl k) \<longrightarrow>
        is_allowed cl now k limit window =
          (let q = filter (\<lambda>u. \<not> u < now - of_int window) (cl k) in
           if int (length q) < limit then (cl(k := q @ [now]), True)
           else (cl(k := q), False))"
    by (auto simp: is_allowed_def Let_def clean_old_sorted_filter)
  from run last gen show ?thesis by simp
qed

theorem rate_gate_sliding_window_witness:
  "sorted (((\<lambda>_. []) :: clients) ''user_1'')
   \<and> is_allowed (\<lambda>_. []) 7 ''user_1'' 5 300 = ((\<lambda>_. [])(''user_1'' := [7]), True)
   \<and> sorted ((((\<lambda>_. [])(''user_1'' := [0, 0, 0, 0, 0])) :: clients) ''user_1'')
   \<and> snd (is_allowed ((\<lambda>_. [])(''user_1'' := [0, 0, 0, 0, 0])) 300 ''user_1'' 5 300) = False
   \<and> is_allowed ((\<lambda>_. [])(''user_1'' := [0, 0, 0, 0, 0])) 301 ''user_1'' 5 300
       = ((\<lambda>_. [])(''user_1'' := [301]), True)"
  using rate_gate_sliding_window [of "\<lambda>_. []" "''user_1''" 0 7 5 300]
    rate_gate_sliding_window [of "(\<lambda>_. [])(''user_1'' := [0, 0, 0, 0, 0])" "''user_1''" 0 300 5 300]
    rate_gate_sliding_window [of "(\<lambda>_. [])(''user_1'' := [0, 0, 0, 0, 0])" "''user_1''" 0 301 5 300]
  by (simp add: Let_def)

subsection \<open>Strings\<close>

lemma strip_prefix: "\<exists>x. dropWhile isspace s = strip s @ x"
proof -
  let ?u = "dropWhile isspace s"
  have "?u = strip s @ rev (takeWhile isspace (rev ?u))"
    unfolding strip_def by (metis rev_append rev_rev_ident takeWhile_dropWhile_id)
  thus ?thesis by blast
qed

lemma strip_hd: "strip s \<noteq> [] \<Longrightarrow> \<not> isspace (hd (strip s))"
proof -
  assume ne: "strip s \<noteq> []"
  obtain x where x: "dropWhile isspace s = strip s @ x" using strip_prefix by blast
  with ne have "dropWhile isspace s \<noteq> []" by auto
  hence "\<not> isspace (hd (dropWhile isspace s))" by (rule hd_dropWhile)
  with x ne show ?thesis by simp
qed

lemma strip_last: "strip s \<noteq> [] \<Longrightarrow> \<not> isspace (last (strip s))"
proof -
  assume ne: "strip s \<noteq> []"
  let ?w = "dropWhile isspace (rev (dropWhile isspace s))"
  from ne have "?w \<noteq> []" by (simp add: strip_def)
  hence "\<not> isspace (hd ?w)" by (rule hd_dropWhile)
  moreover have "last (strip s) = hd ?w" using \<open>?w \<noteq> []\<close> by (simp add: strip_def last_rev)
  ultimately show ?thesis by simp
qed

lemma strip_fixed: "t \<noteq> [] \<Longrightarrow> \<not> isspace (hd t) \<Longrightarrow> \<not> isspace (last t) \<Longrightarrow> strip t = t"
proof -
  assume a: "t \<noteq> []" "\<not> isspace (hd t)" "\<not> isspace (last t)"
  from a have "dropWhile isspace t = t" by (cases t) auto
  moreover from a have "dropWhile isspace (rev t) = rev t"
    by (cases "rev t") (auto simp: last_rev[symmetric] hd_rev)
  ultimately show ?thesis by (simp add: strip_def)
qed

lemma strip_Nil: "strip [] = []"
  by (simp add: strip_def)

lemma strip_strip: "strip (strip s) = strip s"
proof (cases "strip s = []")
  case True
  with strip_Nil show ?thesis by simp
next
  case False
  thus ?thesis by (simp add: strip_fixed strip_hd strip_last)
qed


lemma length_strip: "length (strip s) \<le> length s"
proof -
  have "length (strip s) \<le> length (dropWhile isspace s)"
    unfolding strip_def length_rev by (metis length_dropWhile_le length_rev)
  also have "\<dots> \<le> length s" by (rule length_dropWhile_le)
  finally show ?thesis .
qed

lemma html_escape_nonempty: "s \<noteq> [] \<Longrightarrow> html_escape s \<noteq> []"
  by (cases s) (auto simp: html_escape_def)

subsection \<open>Validation of a task\<close>

lemma validate_task_data_bad:
  "task_data_bad desc p c \<Longrightarrow> \<exists>msg. validate_task_data desc p c = Inl (ValidationError msg)"
  unfolding validate_task_data_def task_data_bad_def Let_def by auto

lemma validate_task_data_good:
  "\<not> task_data_bad desc p c \<Longrightarrow>
     validate_task_data desc p c = Inr \<lparr>td_description = sanitize_text desc (Some 1000),
                   td_priority = or_default p ''Medium'',
                   td_category = or_default c ''General''\<rparr>"
  unfolding validate_task_data_def task_data_bad_def Let_def by simp

lemma Medium_valid: "''Medium'' \<in> set valid_priorities"
  by (simp add: valid_priorities_def)

lemma General_valid: "''General'' \<in> set valid_categories"
  by (simp add: valid_categories_def)



lemma or_default_valid_priority:
  "\<not> (truthy p \<and> \<not> validate_priority (the p)) \<Longrightarrow> or_default p ''Medium'' \<in> set valid_priorities"
  by (cases p) (auto simp: truthy_def or_default_def validate_priority_def Medium_valid)

lemma or_default_valid_category:
  "\<not> (truthy c \<and> \<not> validate_category (the c)) \<Longrightarrow> or_default c ''General'' \<in> set valid_categories"
  by (cases c) (auto simp: truthy_def or_default_def validate_category_def General_valid)

lemma sanitize_text_1000:
  "sanitize_text desc (Some 1000) = take 1000 (html_escape (strip desc))"
proof (cases "desc = []")
  case True
  thus ?thesis by (simp add: sanitize_text_def strip_def html_escape_def)
next
  case False
  thus ?thesis by (simp add: sanitize_text_def Let_def)
qed

lemma validate_task_data_Inl: "validate_task_data desc p c = Inl e \<Longrightarrow> is_ValidationError e"
proof (cases "task_data_bad desc p c")
  case True
  assume "validate_task_data desc p c = Inl e"
  with validate_task_data_bad [OF True] show ?thesis by auto
next
  case False
  assume "validate_task_data desc p c = Inl e"
  with validate_task_data_good [OF False] show ?thesis by simp
qed

lemma validate_task_data_Inr:
  assumes "validate_task_data desc p c = Inr v"
  shows "strip desc \<noteq> []" and "length desc \<le> 1000"
    and "td_description v = take 1000 (html_escape (strip desc))"
    and "td_priority v \<in> set valid_priorities"
    and "td_category v \<in> set valid_categories"
    and "td_priority v = or_default p ''Medium''"
    and "td_category v = or_default c ''General''"
proof -
  have good: "\<not> task_data_bad desc p c"
  proof
    assume "task_data_bad desc p c"
    from validate_task_data_bad [OF this] assms show False by auto
  qed
  with assms have v: "v = \<lparr>td_description = sanitize_text desc (Some 1000),
                   td_priority = or_default p ''Medium'',
                   td_category = or_default c ''General''\<rparr>"
    by (simp add: validate_task_data_good)
  from good show "strip desc \<noteq> []" "length desc \<le> 1000" by (simp_all add: task_data_bad_def)
  from v show "td_description v = take 1000 (html_escape (strip desc))"
    by (simp add: sanitize_text_1000)
  from v good show "td_priority v \<in> set valid_priorities"
    by (simp add: or_default_valid_priority task_data_bad_def)
  from v good show "td_category v \<in> set valid_categories"
    by (simp add: or_default_valid_category task_data_bad_def)
  from v show "td_priority v = or_default p ''Medium''" "td_category v = or_default c ''General''"
    by simp_all
qed



subsection \<open>The loop that stores the tasks\<close>

lemma add_task_tasks: "db_tasks (add_task d r) = db_tasks d @ [r\<lparr>t_id := next_id (map t_id (db_tasks d))\<rparr>]"
  by (simp add: add_task_def)

lemma add_task_emails: "db_emails (add_task d r) = db_emails d" and add_task_users: "db_users (add_task d r) = db_users d"
  by (simp_all add: add_task_def)

lemma new_task_ok:
  assumes "validate_task_data desc p c = Inr v"
  shows "task_row_ok uid eid ((new_task uid eid m v now)\<lparr>t_id := i\<rparr>)"
proof -
  from validate_task_data_Inr(1) [OF assms] have "html_escape (strip desc) \<noteq> []"
    by (rule html_escape_nonempty)
  hence "take 1000 (html_escape (strip desc)) \<noteq> []" by simp
  with validate_task_data_Inr(3,4,5) [OF assms] show ?thesis
    by (simp add: task_row_ok_def new_task_def)
qed

lemma add_tasks_result:
  "\<exists>new. add_tasks now uid eid m tds (d, tc)
            = Inr (d\<lparr>db_tasks := db_tasks d @ new\<rparr>, tc + length new)
        \<and> (\<forall>t \<in> set new. task_row_ok uid eid t)"
proof (induction tds arbitrary: d tc)
  case Nil
  have "add_tasks now uid eid m [] (d, tc) = Inr (d\<lparr>db_tasks := db_tasks d @ []\<rparr>, tc + length ([] :: task_row list))
      \<and> (\<forall>t \<in> set []. task_row_ok uid eid t)" by simp
  thus ?case by blast
next
  case (Cons td tds)
  show ?case
  proof (cases "validate_task_data (td_description td) (Some (td_priority td)) (Some (td_category td))")
    case (Inl e)
    hence "is_ValidationError e" by (rule validate_task_data_Inl)
    with Inl have "add_tasks now uid eid m (td # tds) (d, tc) = add_tasks now uid eid m tds (d, tc)"
      by simp
    with Cons.IH [of d tc] show ?thesis by simp
  next
    case (Inr v)
    let ?r = "(new_task uid eid m v now)\<lparr>t_id := next_id (map t_id (db_tasks d))\<rparr>"
    let ?d1 = "add_task d (new_task uid eid m v now)"
    from Inr have step: "add_tasks now uid eid m (td # tds) (d, tc)
        = add_tasks now uid eid m tds (?d1, Suc tc)" by simp
    from Cons.IH [of ?d1 "Suc tc"] obtain new where
      new: "add_tasks now uid eid m tds (?d1, Suc tc)
              = Inr (?d1\<lparr>db_tasks := db_tasks ?d1 @ new\<rparr>, Suc tc + length new)"
      and ok: "\<forall>t \<in> set new. task_row_ok uid eid t" by blast
    have d1: "?d1\<lparr>db_tasks := db_tasks ?d1 @ new\<rparr> = d\<lparr>db_tasks := db_tasks d @ (?r # new)\<rparr>"
      by (simp add: add_task_def)
    have "task_row_ok uid eid ?r" using Inr by (rule new_task_ok)
    with ok have "\<forall>t \<in> set (?r # new). task_row_ok uid eid t" by simp
    moreover from step new d1 have "add_tasks now uid eid m (td # tds) (d, tc)
        = Inr (d\<lparr>db_tasks := db_tasks d @ (?r # new)\<rparr>, tc + length (?r # new))" by simp
    ultimately show ?thesis by blast
  qed
qed

subsection \<open>One round of the loop over the messages\<close>

lemma validate_email_content_Inl:
  "validate_email_content subject body = Inl e \<Longrightarrow> is_ValidationError e"
  by (auto simp: validate_email_content_def Let_def split: if_splits)

lemma existing_email_keys:
  "(existing_email d gid uid = None) = ((gid, uid) \<notin> set (email_keys d))"
  by (auto simp: existing_email_def email_keys_def find_None_iff)

lemma gmail_ids_keys: "map e_gmail_id (db_emails d) = map fst (email_keys d)"
  by (simp add: email_keys_def)

lemma email_keys_mark_processed: "email_keys (mark_processed now eid d) = email_keys d"
  by (simp add: email_keys_def mark_processed_def)

lemma mark_processed_users: "db_users (mark_processed now eid d) = db_users d"
  by (simp add: mark_processed_def)

lemma mark_processed_tasks: "db_tasks (mark_processed now eid d) = db_tasks d"
  by (simp add: mark_processed_def)

lemma add_email_fails:
  "gid \<in> fst ` set (email_keys d) \<Longrightarrow> e_gmail_id r = gid \<Longrightarrow>
     add_email d r = Inl (IntegrityError ''UNIQUE constraint failed: emails.gmail_id'')"
  by (simp add: add_email_def gmail_ids_keys)

lemma add_email_succeeds:
  "e_gmail_id r \<notin> fst ` set (email_keys d) \<Longrightarrow>
     add_email d r = Inr (d\<lparr>db_emails := db_emails d @ [r\<lparr>e_id := next_id (map e_id (db_emails d))\<rparr>]\<rparr>,
                          next_id (map e_id (db_emails d)))"
  by (simp add: add_email_def gmail_ids_keys Let_def)

lemma process_loop_existing:
  "(m_gmail_id m, uid) \<in> set (email_keys d) \<Longrightarrow>
     process_loop ev uid (m # ms) (d, pc, tc) = process_loop ev uid ms (d, pc, tc)"
  using existing_email_keys [of d "m_gmail_id m" uid] by simp

lemma process_loop_invalid:
  assumes "validate_email_content (m_subject m) (m_body m) = Inl e"
  shows "process_loop ev uid (m # ms) (d, pc, tc) = process_loop ev uid ms (d, pc, tc)"
proof -
  from assms have "is_ValidationError e" by (rule validate_email_content_Inl)
  with assms show ?thesis by simp
qed

lemma process_loop_fails:
  assumes "(m_gmail_id m, uid) \<notin> set (email_keys d)"
    and "validate_email_content (m_subject m) (m_body m) = Inr vc"
    and "m_gmail_id m \<in> fst ` set (email_keys d)"
  shows "process_loop ev uid (m # ms) (d, pc, tc)
           = Inl (IntegrityError ''UNIQUE constraint failed: emails.gmail_id'')"
proof -
  from assms(1) have "existing_email d (m_gmail_id m) uid = None"
    by (simp add: existing_email_keys)
  moreover have "add_email d (new_email uid m vc (utcnow ev))
      = Inl (IntegrityError ''UNIQUE constraint failed: emails.gmail_id'')"
    using assms(3) by (rule add_email_fails) (simp add: new_email_def)
  ultimately show ?thesis using assms(2) by simp
qed

lemma process_loop_inserts:
  assumes "validate_email_content (m_subject m) (m_body m) = Inr vc"
    and "m_gmail_id m \<notin> fst ` set (email_keys d)"
  shows "\<exists>d' tc'. process_loop ev uid (m # ms) (d, pc, tc) = process_loop ev uid ms (d', Suc pc, tc')
           \<and> email_keys d' = email_keys d @ [(m_gmail_id m, uid)]
           \<and> db_users d' = db_users d
           \<and> (\<exists>new. db_tasks d' = db_tasks d @ new
                 \<and> (\<forall>t \<in> set new. task_row_ok uid (next_id (map e_id (db_emails d))) t))"
proof -
  let ?now = "utcnow ev"
  let ?eid = "next_id (map e_id (db_emails d))"
  let ?r = "new_email uid m vc ?now"
  let ?d1 = "d\<lparr>db_emails := db_emails d @ [?r\<lparr>e_id := ?eid\<rparr>]\<rparr>"
  let ?tds = "extract_tasks (ai_complete ev) (json_loads ev) (m_subject m) (m_body m) (m_sender m)"
  have gid: "e_gmail_id ?r = m_gmail_id m" and uid: "e_user_id ?r = uid"
    by (simp_all add: new_email_def)
  from assms(2) have nokey: "(m_gmail_id m, uid) \<notin> set (email_keys d)" by force
  hence ex: "existing_email d (m_gmail_id m) uid = None" by (simp add: existing_email_keys)
  from assms(2) gid have add: "add_email d ?r = Inr (?d1, ?eid)"
    by (simp add: add_email_succeeds)
  obtain new where tasks: "add_tasks ?now uid ?eid m ?tds (?d1, tc)
        = Inr (?d1\<lparr>db_tasks := db_tasks ?d1 @ new\<rparr>, tc + length new)"
    and ok: "\<forall>t \<in> set new. task_row_ok uid ?eid t"
    using add_tasks_result [of ?now uid ?eid m ?tds ?d1 tc] by blast
  let ?d2 = "?d1\<lparr>db_tasks := db_tasks ?d1 @ new\<rparr>"
  let ?d3 = "mark_processed ?now ?eid ?d2"
  from ex assms(1) add tasks
  have "process_loop ev uid (m # ms) (d, pc, tc)
          = process_loop ev uid ms (?d3, Suc pc, tc + length new)" by simp
  moreover have "email_keys ?d3 = email_keys d @ [(m_gmail_id m, uid)]"
    by (simp add: email_keys_mark_processed) (simp add: email_keys_def gid uid)
  moreover have "db_users ?d3 = db_users d" by (simp add: mark_processed_users)
  moreover have "db_tasks ?d3 = db_tasks d @ new" by (simp add: mark_processed_tasks)
  ultimately show ?thesis using ok by blast
qed

text \<open>The four ways a round can go, told apart by the keys of the table.\<close>

lemma process_loop_round:
  obtains (existing) "(m_gmail_id m, uid) \<in> set (email_keys d)"
      and "process_loop ev uid (m # ms) (d, pc, tc) = process_loop ev uid ms (d, pc, tc)"
  | (invalid) e where "validate_email_content (m_subject m) (m_body m) = Inl e"
      and "process_loop ev uid (m # ms) (d, pc, tc) = process_loop ev uid ms (d, pc, tc)"
  | (fails) vc where "(m_gmail_id m, uid) \<notin> set (email_keys d)"
      and "validate_email_content (m_subject m) (m_body m) = Inr vc"
      and "m_gmail_id m \<in> fst ` set (email_keys d)"
      and "process_loop ev uid (m # ms) (d, pc, tc)
             = Inl (IntegrityError ''UNIQUE constraint failed: emails.gmail_id'')"
  | (inserts) vc d' tc' where "validate_email_content (m_subject m) (m_body m) = Inr vc"
      and "m_gmail_id m \<notin> fst ` set (email_keys d)"
      and "process_loop ev uid (m # ms) (d, pc, tc) = process_loop ev uid ms (d', Suc pc, tc')"
      and "email_keys d' = email_keys d @ [(m_gmail_id m, uid)]"
      and "db_users d' = db_users d"
      and "\<exists>new. db_tasks d' = db_tasks d @ new
                 \<and> (\<forall>t \<in> set new. task_row_ok uid (next_id (map e_id (db_emails d))) t)"
proof (cases "(m_gmail_id m, uid) \<in> set (email_keys d)")
  case True
  thus ?thesis using process_loop_existing existing by blast
next
  case nokey: False
  show ?thesis
  proof (cases "validate_email_content (m_subject m) (m_body m)")
    case (Inl e)
    thus ?thesis using process_loop_invalid invalid by blast
  next
    case (Inr vc)
    show ?thesis
    proof (cases "m_gmail_id m \<in> fst ` set (email_keys d)")
      case True
      with nokey Inr show ?thesis using process_loop_fails fails by blast
    next
      case False
      from process_loop_inserts [OF Inr False, of ev uid ms pc tc] Inr False
      show ?thesis using inserts by blast
    qed
  qed
qed

subsection \<open>The whole loop over the messages\<close>

text \<open>Only the insert of an email row can end the loop with an exception.\<close>

lemma process_loop_Inl:
  "process_loop ev uid ms (d, pc, tc) = Inl e \<Longrightarrow>
     e = IntegrityError ''UNIQUE constraint failed: emails.gmail_id''"
proof (induction ms arbitrary: d pc tc)
  case Nil
  thus ?case by simp
next
  case (Cons m ms)
  show ?case
  proof (cases rule: process_loop_round [of m uid d ev ms pc tc])
    case existing
    with Cons show ?thesis by simp
  next
    case (invalid e')
    with Cons show ?thesis by simp
  next
    case (fails vc)
    with Cons.prems show ?thesis by simp
  next
    case (inserts vc d' tc')
    with Cons show ?thesis by simp
  qed
qed

text \<open>What a loop that comes to its end has done to the table of emails.\<close>

lemma process_loop_Inr:
  "process_loop ev uid ms (d, pc, tc) = Inr (d', pc', tc') \<Longrightarrow>
     (\<exists>added. email_keys d' = email_keys d @ added
         \<and> distinct (map fst added)
         \<and> fst ` set added \<inter> fst ` set (email_keys d) = {}
         \<and> snd ` set added \<subseteq> {uid})
     \<and> db_users d' = db_users d
     \<and> (\<forall>m \<in> set ms. (m_gmail_id m, uid) \<in> set (email_keys d')
            \<or> isl (validate_email_content (m_subject m) (m_body m)))"
proof (induction ms arbitrary: d pc tc)
  case Nil
  hence "d' = d" by simp
  thus ?case by simp
next
  case (Cons m ms)
  show ?case
  proof (cases rule: process_loop_round [of m uid d ev ms pc tc])
    case existing
    with Cons.prems have run: "process_loop ev uid ms (d, pc, tc) = Inr (d', pc', tc')" by simp
    from Cons.IH [OF run] obtain added where a: "email_keys d' = email_keys d @ added"
      "distinct (map fst added)" "fst ` set added \<inter> fst ` set (email_keys d) = {}"
      "snd ` set added \<subseteq> {uid}" by blast
    from existing(1) a(1) have "(m_gmail_id m, uid) \<in> set (email_keys d')" by simp
    with Cons.IH [OF run] a show ?thesis by auto
  next
    case (invalid e)
    with Cons.prems have run: "process_loop ev uid ms (d, pc, tc) = Inr (d', pc', tc')" by simp
    from invalid(1) have "isl (validate_email_content (m_subject m) (m_body m))" by simp
    with Cons.IH [OF run] show ?thesis by auto
  next
    case (fails vc)
    with Cons.prems show ?thesis by simp
  next
    case (inserts vc d1 tc1)
    with Cons.prems have run: "process_loop ev uid ms (d1, Suc pc, tc1) = Inr (d', pc', tc')"
      by simp
    from Cons.IH [OF run] obtain added where a: "email_keys d' = email_keys d1 @ added"
      "distinct (map fst added)" "fst ` set added \<inter> fst ` set (email_keys d1) = {}"
      "snd ` set added \<subseteq> {uid}" by blast
    let ?k = "(m_gmail_id m, uid)"
    from a(1) inserts(4) have k1: "email_keys d' = email_keys d @ (?k # added)" by simp
    from a(3) inserts(4) have "m_gmail_id m \<notin> fst ` set added" by auto
    with a(2) have k2: "distinct (map fst (?k # added))" by simp
    from a(3) inserts(4) inserts(2)
    have k3: "fst ` set (?k # added) \<inter> fst ` set (email_keys d) = {}" by auto
    from a(4) have k4: "snd ` set (?k # added) \<subseteq> {uid}" by simp
    from k1 have "?k \<in> set (email_keys d')" by simp
    moreover from Cons.IH [OF run] inserts(5) have "db_users d' = db_users d" by simp
    moreover from Cons.IH [OF run]
    have "\<forall>m \<in> set ms. (m_gmail_id m, uid) \<in> set (email_keys d')
            \<or> isl (validate_email_content (m_subject m) (m_body m))" by simp
    ultimately show ?thesis using k1 k2 k3 k4 by (metis set_ConsD)
  qed
qed

text \<open>
  A loop over messages that are all stored already, or not valid, changes nothing.
\<close>

lemma process_loop_noop:
  "\<forall>m \<in> set ms. (m_gmail_id m, uid) \<in> set (email_keys d)
        \<or> isl (validate_email_content (m_subject m) (m_body m)) \<Longrightarrow>
     process_loop ev uid ms (d, pc, tc) = Inr (d, pc, tc)"
proof (induction ms)
  case Nil
  show ?case by simp
next
  case (Cons m ms)
  hence rest: "process_loop ev uid ms (d, pc, tc) = Inr (d, pc, tc)" by simp
  from Cons.prems have "(m_gmail_id m, uid) \<in> set (email_keys d)
        \<or> isl (validate_email_content (m_subject m) (m_body m))" by simp
  thus ?case
  proof
    assume "(m_gmail_id m, uid) \<in> set (email_keys d)"
    with rest show ?thesis by (simp only: process_loop_existing)
  next
    assume "isl (validate_email_content (m_subject m) (m_body m))"
    then obtain e where "validate_email_content (m_subject m) (m_body m) = Inl e"
      by (auto simp: isl_def)
    with rest show ?thesis by (simp only: process_loop_invalid)
  qed
qed

text \<open>
  Whether the loop ends with an exception depends on the keys of the table and on the
  messages only, not on the answers of the completion service or on the clock.
\<close>

lemma process_loop_isl:
  "email_keys d2 = email_keys d1 \<Longrightarrow>
     isl (process_loop ev2 uid ms (d2, pc2, tc2)) = isl (process_loop ev1 uid ms (d1, pc1, tc1))"
proof (induction ms arbitrary: d1 d2 pc1 pc2 tc1 tc2)
  case Nil
  show ?case by simp
next
  case (Cons m ms)
  note keys = Cons.prems
  show ?case
  proof (cases rule: process_loop_round [of m uid d1 ev1 ms pc1 tc1])
    case existing
    from existing(1) keys have "(m_gmail_id m, uid) \<in> set (email_keys d2)" by simp
    hence "process_loop ev2 uid (m # ms) (d2, pc2, tc2) = process_loop ev2 uid ms (d2, pc2, tc2)"
      by (rule process_loop_existing)
    with existing(2) Cons.IH [OF keys] show ?thesis by simp
  next
    case (invalid e)
    from invalid(1)
    have "process_loop ev2 uid (m # ms) (d2, pc2, tc2) = process_loop ev2 uid ms (d2, pc2, tc2)"
      by (rule process_loop_invalid)
    with invalid(2) Cons.IH [OF keys] show ?thesis by simp
  next
    case (fails vc)
    from fails(1) keys have k1: "(m_gmail_id m, uid) \<notin> set (email_keys d2)" by simp
    from fails(3) keys have k2: "m_gmail_id m \<in> fst ` set (email_keys d2)" by simp
    have "process_loop ev2 uid (m # ms) (d2, pc2, tc2)
        = Inl (IntegrityError ''UNIQUE constraint failed: emails.gmail_id'')"
      using k1 fails(2) k2 by (rule process_loop_fails)
    with fails(4) show ?thesis by simp
  next
    case (inserts vc d1' tc1')
    from inserts(2) keys have "m_gmail_id m \<notin> fst ` set (email_keys d2)" by simp
    from process_loop_inserts [OF inserts(1) this, of ev2 uid ms pc2 tc2]
    obtain d2' tc2' where
      r2: "process_loop ev2 uid (m # ms) (d2, pc2, tc2) = process_loop ev2 uid ms (d2', Suc pc2, tc2')"
      and k2: "email_keys d2' = email_keys d2 @ [(m_gmail_id m, uid)]" by blast
    from k2 keys inserts(4) have "email_keys d2' = email_keys d1'" by simp
    from Cons.IH [OF this] r2 inserts(3) show ?thesis by simp
  qed
qed

text \<open>
  A valid message whose \<open>gmail_id\<close> is in the table under another user only: the check
  for a stored copy does not find it, and the loop ends with the exception of the insert.
\<close>

lemma process_loop_foreign:
  assumes "m \<in> set ms"
    and "validate_email_content (m_subject m) (m_body m) = Inr vc"
    and "m_gmail_id m \<in> fst ` set (email_keys d)"
    and "(m_gmail_id m, uid) \<notin> set (email_keys d)"
  shows "process_loop ev uid ms (d, pc, tc)
           = Inl (IntegrityError ''UNIQUE constraint failed: emails.gmail_id'')"
  using assms
proof (induction ms arbitrary: d pc tc)
  case Nil
  thus ?case by simp
next
  case (Cons x ms)
  show ?case
  proof (cases "x = m")
    case True
    with process_loop_fails [OF Cons.prems(4) Cons.prems(2) Cons.prems(3)]
    show ?thesis by simp
  next
    case False
    with Cons.prems have mem: "m \<in> set ms" by simp
    show ?thesis
    proof (cases rule: process_loop_round [of x uid d ev ms pc tc])
      case existing
      with Cons.IH [OF mem Cons.prems(2,3,4)] show ?thesis by simp
    next
      case (invalid e)
      with Cons.IH [OF mem Cons.prems(2,3,4)] show ?thesis by simp
    next
      case (fails vc')
      thus ?thesis by simp
    next
      case (inserts vc' d' tc')
      from inserts(2) Cons.prems(3) have ne: "m_gmail_id x \<noteq> m_gmail_id m" by metis
      from inserts(4) Cons.prems(3) have a: "m_gmail_id m \<in> fst ` set (email_keys d')" by simp
      from inserts(4) Cons.prems(4) ne have b: "(m_gmail_id m, uid) \<notin> set (email_keys d')"
        by simp
      from Cons.IH [OF mem Cons.prems(2) a b] inserts(3) show ?thesis by simp
    qed
  qed
qed

subsection \<open>The request handler\<close>

lemma find_user_id: "find (\<lambda>u. u_id u = uid) us = Some user \<Longrightarrow> u_id user = uid"
  by (auto simp: find_Some_iff)

lemma process_emails_no_user:
  "find (\<lambda>u. u_id u = uid) (db_users d) = None \<Longrightarrow>
     process_emails ev d uid = (d, (ErrorBody ''Gmail not connected'', 400))"
  by (simp add: process_emails_def)

lemma process_emails_not_connected:
  "find (\<lambda>u. u_id u = uid) (db_users d) = Some user \<Longrightarrow> \<not> u_gmail_connected user \<Longrightarrow>
     process_emails ev d uid = (d, (ErrorBody ''Gmail not connected'', 400))"
  by (simp add: process_emails_def)

lemma process_emails_Inl:
  "find (\<lambda>u. u_id u = uid) (db_users d) = Some user \<Longrightarrow> u_gmail_connected user \<Longrightarrow>
     process_try ev d user = Inl e \<Longrightarrow>
     process_emails ev d uid = (d, (ErrorBody (str_exn e), 500))"
  by (simp add: process_emails_def)

lemma process_emails_Inr:
  "find (\<lambda>u. u_id u = uid) (db_users d) = Some user \<Longrightarrow> u_gmail_connected user \<Longrightarrow>
     process_try ev d user = Inr (d1, pc, tc) \<Longrightarrow>
     process_emails ev d uid = (d1, (ProcessedBody ''Emails processed successfully'' pc tc, 200))"
  by (simp add: process_emails_def)

lemma process_try_loop:
  "gmail_build ev user = None \<Longrightarrow> ai_init ev = None \<Longrightarrow>
     gmail_fetch ev user (max_emails ev) = Inr ms \<Longrightarrow>
     process_try ev d user = process_loop ev (u_id user) ms (d, 0, 0)"
  by (simp add: process_try_def)

lemma process_try_Inr:
  "process_try ev d user = Inr r \<Longrightarrow>
     \<exists>ms. gmail_build ev user = None \<and> ai_init ev = None
        \<and> gmail_fetch ev user (max_emails ev) = Inr ms
        \<and> process_loop ev (u_id user) ms (d, 0, 0) = Inr r"
  by (auto simp: process_try_def split: option.splits sum.splits)

text \<open>The outcomes of a request: refused, rolled back, or committed.\<close>

lemma process_emails_outcome:
  obtains (refused) "process_emails ev d uid = (d, (ErrorBody ''Gmail not connected'', 400))"
  | (rolled_back) user e where "find (\<lambda>u. u_id u = uid) (db_users d) = Some user"
      and "u_gmail_connected user" and "process_try ev d user = Inl e"
      and "process_emails ev d uid = (d, (ErrorBody (str_exn e), 500))"
  | (committed) user d1 pc tc where "find (\<lambda>u. u_id u = uid) (db_users d) = Some user"
      and "u_gmail_connected user" and "process_try ev d user = Inr (d1, pc, tc)"
      and "process_emails ev d uid
             = (d1, (ProcessedBody ''Emails processed successfully'' pc tc, 200))"
proof (cases "find (\<lambda>u. u_id u = uid) (db_users d)")
  case None
  thus ?thesis using process_emails_no_user refused by blast
next
  case (Some user)
  show ?thesis
  proof (cases "u_gmail_connected user")
    case False
    with Some show ?thesis using process_emails_not_connected refused by blast
  next
    case True
    show ?thesis
    proof (cases "process_try ev d user")
      case (Inl e)
      with Some True show ?thesis using process_emails_Inl rolled_back by blast
    next
      case (Inr r)
      obtain d1 pc tc where "r = (d1, pc, tc)" by (cases r) auto
      with Inr Some True show ?thesis using process_emails_Inr committed by blast
    qed
  qed
qed

lemma process_try_isl:
  assumes "gmail_build ev2 = gmail_build ev1" and "ai_init ev2 = ai_init ev1"
    and "max_emails ev2 = max_emails ev1" and "gmail_fetch ev2 = gmail_fetch ev1"
  shows "isl (process_try ev2 d user) = isl (process_try ev1 d user)"
proof (cases "gmail_build ev1 user")
  case (Some e)
  with assms show ?thesis by (simp add: process_try_def)
next
  case None
  note build = this
  show ?thesis
  proof (cases "ai_init ev1")
    case (Some e)
    with build assms show ?thesis by (simp add: process_try_def)
  next
    case None
    note init = this
    show ?thesis
    proof (cases "gmail_fetch ev1 user (max_emails ev1)")
      case (Inl e)
      with build init assms show ?thesis by (simp add: process_try_def)
    next
      case (Inr ms)
      with build init assms
      have "process_try ev1 d user = process_loop ev1 (u_id user) ms (d, 0, 0)"
        and "process_try ev2 d user = process_loop ev2 (u_id user) ms (d, 0, 0)"
        by (simp_all add: process_try_def)
      thus ?thesis using process_loop_isl [of d d ev2 "u_id user" ms 0 0 ev1 0 0] by simp
    qed
  qed
qed

subsection \<open>The examples\<close>

lemma example_keys: "email_keys example_db = [(''g2'', 1)]"
  by (simp add: email_keys_def example_db_def)

lemma example_user:
  "find (\<lambda>u. u_id u = 2) (db_users example_db) = Some \<lparr>u_id = 2, u_gmail_connected = True\<rparr>"
  by (simp add: example_db_def)

lemma strip_Hi: "strip ''Hi'' = ''Hi''"
  by (simp add: strip_def isspace_def)

lemma example_valid:
  "validate_email_content (m_subject (example_message gid)) (m_body (example_message gid))
     = Inr \<lparr>c_subject = ''Hi'', c_body = []\<rparr>"
  by (simp add: example_message_def validate_email_content_def sanitize_text_def strip_Hi
      html_escape_def)

lemma example_try:
  "process_try (example_env ms) d \<lparr>u_id = 2, u_gmail_connected = True\<rparr>
     = process_loop (example_env ms) 2 (take 50 ms) (d, 0, 0)"
  by (simp add: process_try_def example_env_def)

lemma example_run_two:
  "process_emails (example_env [example_message ''g1'', example_message ''g2'']) example_db 2
     = (example_db, (ErrorBody ''UNIQUE constraint failed: emails.gmail_id'', 500))"
proof -
  let ?ms = "[example_message ''g1'', example_message ''g2'']"
  have "process_loop (example_env ?ms) 2 ?ms (example_db, 0, 0)
      = Inl (IntegrityError ''UNIQUE constraint failed: emails.gmail_id'')"
    by (rule process_loop_foreign [where m = "example_message ''g2''", OF _ example_valid])
       (simp_all add: example_keys, simp_all add: example_message_def)
  hence "process_try (example_env ?ms) example_db \<lparr>u_id = 2, u_gmail_connected = True\<rparr>
      = Inl (IntegrityError ''UNIQUE constraint failed: emails.gmail_id'')"
    by (simp add: example_try)
  with process_emails_Inl [OF example_user] show ?thesis by simp
qed

lemma example_run_one:
  "(''g1'', 2) \<in> set (email_keys (fst (process_emails (example_env [example_message ''g1''])
      example_db 2)))
   \<and> snd (snd (process_emails (example_env [example_message ''g1'']) example_db 2)) = 200"
proof -
  let ?ms = "[example_message ''g1'']"
  let ?ev = "example_env ?ms"
  have "m_gmail_id (example_message ''g1'') \<notin> fst ` set (email_keys example_db)"
    by (simp add: example_keys example_message_def)
  from process_loop_inserts [OF example_valid this, of ?ev 2 "[]" 0 0]
  obtain d' tc' where run: "process_loop ?ev 2 ?ms (example_db, 0, 0) = Inr (d', Suc 0, tc')"
    and keys: "email_keys d' = email_keys example_db @ [(m_gmail_id (example_message ''g1''), 2)]"
    by auto
  from run have "process_try ?ev example_db \<lparr>u_id = 2, u_gmail_connected = True\<rparr>
      = Inr (d', Suc 0, tc')" by (simp add: example_try)
  with process_emails_Inr [OF example_user] have "process_emails ?ev example_db 2
      = (d', (ProcessedBody ''Emails processed successfully'' (Suc 0) tc', 200))" by simp
  with keys show ?thesis by (simp add: example_message_def)
qed

subsection \<open>Idempotent ingestion\<close>

text \<open>
  C1. Ingestion is idempotent. For every user and every fetched list of messages, a
  second run of \<open>process_emails\<close> on the database the first run left, with the same
  fetched messages (the clock and the answers of the completion service may differ),
  leaves the database as the first run left it. A message whose pair of \<open>gmail_id\<close> and
  \<open>user_id\<close> is stored already is passed over without any change, and no pair comes to
  be stored twice.
\<close>

theorem ingestion_idempotent:
  assumes "gmail_build ev2 = gmail_build ev1" and "ai_init ev2 = ai_init ev1"
    and "max_emails ev2 = max_emails ev1" and "gmail_fetch ev2 = gmail_fetch ev1"
  shows "fst (process_emails ev2 (fst (process_emails ev1 d uid)) uid)
           = fst (process_emails ev1 d uid)
     \<and> (existing_email d0 (m_gmail_id m) uid \<noteq> None \<longrightarrow>
          process_loop ev1 uid (m # ms) (d0, pc, tc) = process_loop ev1 uid ms (d0, pc, tc))
     \<and> (distinct (email_keys d) \<longrightarrow> distinct (email_keys (fst (process_emails ev1 d uid))))"
proof -
  have twice: "fst (process_emails ev2 (fst (process_emails ev1 d uid)) uid)
           = fst (process_emails ev1 d uid)"
  proof (cases rule: process_emails_outcome [of ev1 d uid])
    case refused
    hence "fst (process_emails ev1 d uid) = d" by simp
    moreover have "fst (process_emails ev2 d uid) = d"
    proof (cases rule: process_emails_outcome [of ev2 d uid])
      case refused
      thus ?thesis by simp
    next
      case (rolled_back user e)
      thus ?thesis by simp
    next
      case (committed user d1 pc1 tc1)
      from committed(1,2) have "snd (snd (process_emails ev1 d uid)) \<noteq> 400"
        by (cases "process_try ev1 d user") (auto simp: process_emails_def)
      with refused show ?thesis by simp
    qed
    ultimately show ?thesis by simp
  next
    case (rolled_back user e)
    from rolled_back(3) process_try_isl [OF assms, of d user]
    obtain e2 where "process_try ev2 d user = Inl e2" by (auto simp: isl_def)
    with rolled_back(1,2) have "process_emails ev2 d uid = (d, (ErrorBody (str_exn e2), 500))"
      by (rule process_emails_Inl)
    with rolled_back(4) show ?thesis by simp
  next
    case (committed user d1 pc1 tc1)
    from process_try_Inr [OF committed(3)] obtain fetched where
      env1: "gmail_build ev1 user = None" "ai_init ev1 = None"
        "gmail_fetch ev1 user (max_emails ev1) = Inr fetched"
      and loop1: "process_loop ev1 (u_id user) fetched (d, 0, 0) = Inr (d1, pc1, tc1)" by blast
    from process_loop_Inr [OF loop1]
    have users: "db_users d1 = db_users d"
      and stored: "\<forall>m \<in> set fetched. (m_gmail_id m, u_id user) \<in> set (email_keys d1)
            \<or> isl (validate_email_content (m_subject m) (m_body m))" by simp_all
    from env1 assms have "process_try ev2 d1 user = process_loop ev2 (u_id user) fetched (d1, 0, 0)"
      by (simp add: process_try_loop)
    also from stored have "\<dots> = Inr (d1, 0, 0)" by (rule process_loop_noop)
    finally have "process_emails ev2 d1 uid
        = (d1, (ProcessedBody ''Emails processed successfully'' 0 0, 200))"
      using committed(1,2) users by (simp add: process_emails_Inr)
    with committed(4) show ?thesis by simp
  qed
  have skip: "existing_email d0 (m_gmail_id m) uid \<noteq> None \<longrightarrow>
          process_loop ev1 uid (m # ms) (d0, pc, tc) = process_loop ev1 uid ms (d0, pc, tc)"
    by simp
  have once: "distinct (email_keys d) \<longrightarrow> distinct (email_keys (fst (process_emails ev1 d uid)))"
  proof
    assume dist: "distinct (email_keys d)"
    show "distinct (email_keys (fst (process_emails ev1 d uid)))"
    proof (cases rule: process_emails_outcome [of ev1 d uid])
      case refused
      with dist show ?thesis by simp
    next
      case (rolled_back user e)
      with dist show ?thesis by simp
    next
      case (committed user d1 pc1 tc1)
      from process_try_Inr [OF committed(3)] obtain fetched where
        "process_loop ev1 (u_id user) fetched (d, 0, 0) = Inr (d1, pc1, tc1)" by blast
      from process_loop_Inr [OF this] obtain added where
        a: "email_keys d1 = email_keys d @ added" "distinct (map fst added)"
          "fst ` set added \<inter> fst ` set (email_keys d) = {}" by blast
      from a(2) have "distinct added" by (simp add: distinct_map)
      moreover from a(3) have "set (email_keys d) \<inter> set added = {}" by force
      ultimately have "distinct (email_keys d1)" using dist a(1) by simp
      with committed(4) show ?thesis by simp
    qed
  qed
  from twice skip once show ?thesis by blast
qed

theorem ingestion_idempotent_witness:
  "fst (process_emails (example_env [example_message ''g1''])
         (fst (process_emails (example_env [example_message ''g1'']) example_db 2)) 2)
     = fst (process_emails (example_env [example_message ''g1'']) example_db 2)
   \<and> (''g1'', 2) \<in> set (email_keys (fst (process_emails (example_env [example_message ''g1''])
        example_db 2)))
   \<and> existing_email example_db (m_gmail_id (example_message ''g2'')) 1 \<noteq> None
   \<and> process_loop (example_env []) 1 [example_message ''g2''] (example_db, 0, 0)
        = Inr (example_db, 0, 0)
   \<and> distinct (email_keys example_db)
   \<and> distinct (email_keys (fst (process_emails (example_env [example_message ''g1''])
        example_db 2)))"
proof -
  let ?ev = "example_env [example_message ''g1'']"
  have ex: "existing_email example_db (m_gmail_id (example_message ''g2'')) 1 \<noteq> None"
    by (simp add: existing_email_keys example_keys example_message_def)
  have dist: "distinct (email_keys example_db)" by (simp add: example_keys)
  note run2 = ingestion_idempotent [where ?ev1.0 = ?ev and ?ev2.0 = ?ev and d = example_db
      and uid = 2 and ?d0.0 = example_db and m = "example_message ''g2''" and ms = "[]"
      and pc = 0 and tc = 0, OF refl refl refl refl]
  note run1 = ingestion_idempotent [where ?ev1.0 = "example_env []" and ?ev2.0 = "example_env []"
      and d = example_db and uid = 1 and ?d0.0 = example_db and m = "example_message ''g2''"
      and ms = "[]" and pc = 0 and tc = 0, OF refl refl refl refl]
  from run1 ex have "process_loop (example_env []) 1 [example_message ''g2''] (example_db, 0, 0)
        = Inr (example_db, 0, 0)" by simp
  with run2 ex dist example_run_one show ?thesis by simp
qed

subsection \<open>One commit for the whole run\<close>

text \<open>
  C2 as stated fails. User 2 fetches the messages \<open>g1\<close> and \<open>g2\<close>; \<open>g1\<close> alone
  would be stored, but the insert of \<open>g2\<close> fails (user 1 holds that \<open>gmail_id\<close>), and the
  rollback takes the row of \<open>g1\<close> with it: the database is as before the request.
\<close>

theorem message_level_atomicity_counterexample:
  "(''g1'', 2) \<in> set (email_keys (fst (process_emails (example_env [example_message ''g1''])
      example_db 2)))
   \<and> (''g1'', 2) \<notin> set (email_keys (fst (process_emails
        (example_env [example_message ''g1'', example_message ''g2'']) example_db 2)))
   \<and> process_emails (example_env [example_message ''g1'', example_message ''g2'']) example_db 2
       = (example_db, (ErrorBody ''UNIQUE constraint failed: emails.gmail_id'', 500))"
  using example_run_one example_run_two by (simp add: example_keys)

text \<open>
  C2, amended. Persistence is atomic for the run as a whole: the rows of all messages
  of a run are committed together after the loop. A run whose loop comes to its end is
  answered with the status 200, and what it leaves is the session as the loop left it:
  the rows that were there before, and every fetched message that is valid stored. A
  failing insert of one message ends the loop at once, whatever messages follow, and
  every response other than the successful one leaves the database exactly as it was
  before the request.
\<close>

theorem run_level_atomicity:
  "(snd (snd (process_emails ev d uid)) \<noteq> 200 \<longrightarrow> fst (process_emails ev d uid) = d)
   \<and> (existing_email d0 (m_gmail_id m) uid = None
        \<and> validate_email_content (m_subject m) (m_body m) = Inr vc
        \<and> add_email d0 (new_email uid m vc (utcnow ev)) = Inl e \<longrightarrow>
          process_loop ev uid (m # ms) (d0, pc, tc) = Inl e)
   \<and> (find (\<lambda>u. u_id u = uid) (db_users d) = Some user \<and> u_gmail_connected user
        \<and> process_try ev d user = Inl e \<longrightarrow>
          process_emails ev d uid = (d, (ErrorBody (str_exn e), 500)))
   \<and> (find (\<lambda>u. u_id u = uid) (db_users d) = Some user \<and> u_gmail_connected user
        \<and> process_try ev d user = Inr (d1, pc1, tc1) \<longrightarrow>
          process_emails ev d uid
            = (d1, (ProcessedBody ''Emails processed successfully'' pc1 tc1, 200)))
   \<and> (find (\<lambda>u. u_id u = uid) (db_users d) = Some user \<and> u_gmail_connected user
        \<and> gmail_build ev user = None \<and> ai_init ev = None
        \<and> gmail_fetch ev user (max_emails ev) = Inr fetched
        \<and> process_loop ev uid fetched (d, 0, 0) = Inr (d1, pc1, tc1) \<longrightarrow>
          process_emails ev d uid
            = (d1, (ProcessedBody ''Emails processed successfully'' pc1 tc1, 200)))
   \<and> (find (\<lambda>u. u_id u = uid) (db_users d) = Some user \<and> u_gmail_connected user
        \<and> gmail_build ev user = None \<and> ai_init ev = None
        \<and> gmail_fetch ev user (max_emails ev) = Inr fetched
        \<and> snd (snd (process_emails ev d uid)) = 200 \<longrightarrow>
          set (email_keys d) \<subseteq> set (email_keys (fst (process_emails ev d uid)))
          \<and> (\<forall>m \<in> set fetched.
                (m_gmail_id m, uid) \<in> set (email_keys (fst (process_emails ev d uid)))
                \<or> isl (validate_email_content (m_subject m) (m_body m))))"
proof -
  have a: "snd (snd (process_emails ev d uid)) \<noteq> 200 \<longrightarrow> fst (process_emails ev d uid) = d"
    by (cases rule: process_emails_outcome [of ev d uid]) simp_all
  have b: "existing_email d0 (m_gmail_id m) uid = None
        \<and> validate_email_content (m_subject m) (m_body m) = Inr vc
        \<and> add_email d0 (new_email uid m vc (utcnow ev)) = Inl e \<longrightarrow>
          process_loop ev uid (m # ms) (d0, pc, tc) = Inl e"
    by simp
  have c: "find (\<lambda>u. u_id u = uid) (db_users d) = Some user \<and> u_gmail_connected user
        \<and> process_try ev d user = Inl e \<longrightarrow>
          process_emails ev d uid = (d, (ErrorBody (str_exn e), 500))"
    by (simp add: process_emails_Inl)
  have d: "find (\<lambda>u. u_id u = uid) (db_users d) = Some user \<and> u_gmail_connected user
        \<and> process_try ev d user = Inr (d1, pc1, tc1) \<longrightarrow>
          process_emails ev d uid
            = (d1, (ProcessedBody ''Emails processed successfully'' pc1 tc1, 200))"
    by (simp add: process_emails_Inr)
  have e: "find (\<lambda>u. u_id u = uid) (db_users d) = Some user \<and> u_gmail_connected user
        \<and> gmail_build ev user = None \<and> ai_init ev = None
        \<and> gmail_fetch ev user (max_emails ev) = Inr fetched
        \<and> process_loop ev uid fetched (d, 0, 0) = Inr (d1, pc1, tc1) \<longrightarrow>
          process_emails ev d uid
            = (d1, (ProcessedBody ''Emails processed successfully'' pc1 tc1, 200))"
  proof
    assume h: "find (\<lambda>u. u_id u = uid) (db_users d) = Some user \<and> u_gmail_connected user
        \<and> gmail_build ev user = None \<and> ai_init ev = None
        \<and> gmail_fetch ev user (max_emails ev) = Inr fetched
        \<and> process_loop ev uid fetched (d, 0, 0) = Inr (d1, pc1, tc1)"
    hence user: "find (\<lambda>u. u_id u = uid) (db_users d) = Some user" "u_gmail_connected user"
      and env: "gmail_build ev user = None" "ai_init ev = None"
        "gmail_fetch ev user (max_emails ev) = Inr fetched"
      and loop: "process_loop ev uid fetched (d, 0, 0) = Inr (d1, pc1, tc1)" by blast+
    from user(1) have u: "u_id user = uid" by (rule find_user_id)
    from process_try_loop [OF env, of d] u loop
    have "process_try ev d user = Inr (d1, pc1, tc1)" by simp
    with user show "process_emails ev d uid
            = (d1, (ProcessedBody ''Emails processed successfully'' pc1 tc1, 200))"
      by (rule process_emails_Inr)
  qed
  have f: "find (\<lambda>u. u_id u = uid) (db_users d) = Some user \<and> u_gmail_connected user
        \<and> gmail_build ev user = None \<and> ai_init ev = None
        \<and> gmail_fetch ev user (max_emails ev) = Inr fetched
        \<and> snd (snd (process_emails ev d uid)) = 200 \<longrightarrow>
          set (email_keys d) \<subseteq> set (email_keys (fst (process_emails ev d uid)))
          \<and> (\<forall>m \<in> set fetched.
                (m_gmail_id m, uid) \<in> set (email_keys (fst (process_emails ev d uid)))
                \<or> isl (validate_email_content (m_subject m) (m_body m)))"
  proof
    assume h: "find (\<lambda>u. u_id u = uid) (db_users d) = Some user \<and> u_gmail_connected user
        \<and> gmail_build ev user = None \<and> ai_init ev = None
        \<and> gmail_fetch ev user (max_emails ev) = Inr fetched
        \<and> snd (snd (process_emails ev d uid)) = 200"
    hence user: "find (\<lambda>u. u_id u = uid) (db_users d) = Some user" "u_gmail_connected user"
      and env: "gmail_build ev user = None" "ai_init ev = None"
        "gmail_fetch ev user (max_emails ev) = Inr fetched"
      and ok: "snd (snd (process_emails ev d uid)) = 200" by blast+
    from user(1) have u: "u_id user = uid" by (rule find_user_id)
    from process_try_loop [OF env, of d] u
    have loop: "process_try ev d user = process_loop ev uid fetched (d, 0, 0)" by simp
    show "set (email_keys d) \<subseteq> set (email_keys (fst (process_emails ev d uid)))
          \<and> (\<forall>m \<in> set fetched.
                (m_gmail_id m, uid) \<in> set (email_keys (fst (process_emails ev d uid)))
                \<or> isl (validate_email_content (m_subject m) (m_body m)))"
    proof (cases "process_try ev d user")
      case (Inl x)
      with user have "process_emails ev d uid = (d, (ErrorBody (str_exn x), 500))"
        by (rule process_emails_Inl)
      with ok show ?thesis by simp
    next
      case (Inr r)
      obtain d2 pc2 tc2 where r: "r = (d2, pc2, tc2)" by (cases r) auto
      from Inr r have "process_try ev d user = Inr (d2, pc2, tc2)" by simp
      with user have res: "process_emails ev d uid
          = (d2, (ProcessedBody ''Emails processed successfully'' pc2 tc2, 200))"
        by (rule process_emails_Inr)
      from Inr r loop have "process_loop ev uid fetched (d, 0, 0) = Inr (d2, pc2, tc2)" by simp
      from process_loop_Inr [OF this] obtain added where
        keys: "email_keys d2 = email_keys d @ added"
        and stored: "\<forall>m \<in> set fetched. (m_gmail_id m, uid) \<in> set (email_keys d2)
            \<or> isl (validate_email_content (m_subject m) (m_body m))" by blast
      from res have "fst (process_emails ev d uid) = d2" by simp
      with keys stored show ?thesis by simp
    qed
  qed
  show ?thesis by (intro conjI; fact a b c d e f)
qed

theorem run_level_atomicity_witness:
  "snd (snd (process_emails (example_env [example_message ''g1'', example_message ''g2''])
      example_db 2)) \<noteq> 200
   \<and> fst (process_emails (example_env [example_message ''g1'', example_message ''g2''])
      example_db 2) = example_db
   \<and> existing_email example_db (m_gmail_id (example_message ''g2'')) 2 = None
   \<and> validate_email_content (m_subject (example_message ''g2'')) (m_body (example_message ''g2''))
        = Inr \<lparr>c_subject = ''Hi'', c_body = []\<rparr>
   \<and> add_email example_db (new_email 2 (example_message ''g2'') \<lparr>c_subject = ''Hi'', c_body = []\<rparr>
          (utcnow (example_env [])))
        = Inl (IntegrityError ''UNIQUE constraint failed: emails.gmail_id'')
   \<and> process_loop (example_env []) 2 [example_message ''g2'', example_message ''g1'']
          (example_db, 0, 0)
        = Inl (IntegrityError ''UNIQUE constraint failed: emails.gmail_id'')
   \<and> find (\<lambda>u. u_id u = 2) (db_users example_db) = Some \<lparr>u_id = 2, u_gmail_connected = True\<rparr>
   \<and> process_try (example_env [example_message ''g2'']) example_db
          \<lparr>u_id = 2, u_gmail_connected = True\<rparr>
        = Inl (IntegrityError ''UNIQUE constraint failed: emails.gmail_id'')
   \<and> process_emails (example_env [example_message ''g2'']) example_db 2
        = (example_db, (ErrorBody ''UNIQUE constraint failed: emails.gmail_id'', 500))
   \<and> gmail_fetch (example_env [example_message ''g1'']) \<lparr>u_id = 2, u_gmail_connected = True\<rparr>
        (max_emails (example_env [example_message ''g1''])) = Inr [example_message ''g1'']
   \<and> (\<exists>d1 pc1 tc1.
         process_loop (example_env [example_message ''g1'']) 2 [example_message ''g1'']
           (example_db, 0, 0) = Inr (d1, pc1, tc1)
         \<and> process_try (example_env [example_message ''g1'']) example_db
             \<lparr>u_id = 2, u_gmail_connected = True\<rparr> = Inr (d1, pc1, tc1)
         \<and> process_emails (example_env [example_message ''g1'']) example_db 2
             = (d1, (ProcessedBody ''Emails processed successfully'' pc1 tc1, 200)))
   \<and> snd (snd (process_emails (example_env [example_message ''g1'']) example_db 2)) = 200
   \<and> (''g2'', 1) \<in> set (email_keys (fst (process_emails (example_env [example_message ''g1''])
        example_db 2)))
   \<and> (''g1'', 2) \<in> set (email_keys (fst (process_emails (example_env [example_message ''g1''])
        example_db 2)))"
proof -
  let ?m = "example_message ''g2''"
  let ?g1 = "example_message ''g1''"
  let ?vc = "\<lparr>c_subject = ''Hi'', c_body = []\<rparr>"
  let ?err = "IntegrityError ''UNIQUE constraint failed: emails.gmail_id''"
  let ?user = "\<lparr>u_id = 2, u_gmail_connected = True\<rparr>"
  let ?ev1 = "example_env [?g1]"
  have ex: "existing_email example_db (m_gmail_id ?m) 2 = None"
    by (simp add: existing_email_keys example_keys)
  have add: "add_email example_db (new_email 2 ?m ?vc (utcnow (example_env []))) = Inl ?err"
    by (rule add_email_fails [where gid = "''g2''"])
       (simp_all add: example_keys new_email_def example_message_def)
  have ptry: "process_try (example_env [?m]) example_db ?user = Inl ?err"
    using ex example_valid [of "''g2''"] add
    by (simp add: example_try) (simp add: example_env_def)
  have env1: "gmail_build ?ev1 ?user = None" "ai_init ?ev1 = None"
    "gmail_fetch ?ev1 ?user (max_emails ?ev1) = Inr [?g1]"
    by (simp_all add: example_env_def)
  have "m_gmail_id ?g1 \<notin> fst ` set (email_keys example_db)"
    by (simp add: example_keys example_message_def)
  from process_loop_inserts [OF example_valid this, of ?ev1 2 "[]" 0 0]
  obtain d1 tc1 where loop1: "process_loop ?ev1 2 [?g1] (example_db, 0, 0) = Inr (d1, Suc 0, tc1)"
    by auto
  hence try1: "process_try ?ev1 example_db ?user = Inr (d1, Suc 0, tc1)"
    by (simp add: example_try)
  note two = run_level_atomicity [where ev = "example_env [?g1, ?m]"
      and d = example_db and uid = 2 and ?d0.0 = example_db and m = ?m and vc = ?vc
      and e = ?err and ms = "[?g1]" and pc = 0 and tc = 0 and user = ?user
      and ?d1.0 = d1 and ?pc1.0 = "Suc 0" and ?tc1.0 = tc1 and fetched = "[?g1, ?m]"]
  note one = run_level_atomicity [where ev = "example_env []"
      and d = example_db and uid = 2 and ?d0.0 = example_db and m = ?m and vc = ?vc
      and e = ?err and ms = "[?g1]" and pc = 0 and tc = 0 and user = ?user
      and ?d1.0 = d1 and ?pc1.0 = "Suc 0" and ?tc1.0 = tc1 and fetched = "[]"]
  note three = run_level_atomicity [where ev = "example_env [?m]"
      and d = example_db and uid = 2 and ?d0.0 = example_db and m = ?m and vc = ?vc
      and e = ?err and ms = "[]" and pc = 0 and tc = 0 and user = ?user
      and ?d1.0 = d1 and ?pc1.0 = "Suc 0" and ?tc1.0 = tc1 and fetched = "[?m]"]
  note ok = run_level_atomicity [where ev = ?ev1
      and d = example_db and uid = 2 and ?d0.0 = example_db and m = ?m and vc = ?vc
      and e = ?err and ms = "[]" and pc = 0 and tc = 0 and user = ?user
      and ?d1.0 = d1 and ?pc1.0 = "Suc 0" and ?tc1.0 = tc1 and fetched = "[?g1]"]
  from one ex example_valid [of "''g2''"] add
  have loop: "process_loop (example_env []) 2 [?m, ?g1] (example_db, 0, 0) = Inl ?err" by blast
  from three example_user ptry
  have run: "process_emails (example_env [?m]) example_db 2 = (example_db, (ErrorBody (str_exn ?err), 500))"
    by simp
  from example_run_two have not200: "snd (snd (process_emails
      (example_env [?g1, ?m]) example_db 2)) \<noteq> 200" by simp
  with two have undone: "fst (process_emails (example_env [?g1, ?m]) example_db 2) = example_db"
    by blast
  from ok example_user try1 have res1: "process_emails ?ev1 example_db 2
      = (d1, (ProcessedBody ''Emails processed successfully'' (Suc 0) tc1, 200))" by simp
  from ok example_user env1 loop1 have res2: "process_emails ?ev1 example_db 2
      = (d1, (ProcessedBody ''Emails processed successfully'' (Suc 0) tc1, 200))"
    by (simp del: process_loop.simps)
  from res1 have is200: "snd (snd (process_emails ?ev1 example_db 2)) = 200" by simp
  from ok example_user env1 is200
  have kept: "set (email_keys example_db) \<subseteq> set (email_keys (fst (process_emails ?ev1 example_db 2)))"
    and stored: "(m_gmail_id ?g1, 2) \<in> set (email_keys (fst (process_emails ?ev1 example_db 2)))
      \<or> isl (validate_email_content (m_subject ?g1) (m_body ?g1))" by simp_all
  from kept have k1: "(''g2'', 1) \<in> set (email_keys (fst (process_emails ?ev1 example_db 2)))"
    by (auto simp: example_keys)
  from stored example_valid [of "''g1''"]
  have k2: "(''g1'', 2) \<in> set (email_keys (fst (process_emails ?ev1 example_db 2)))"
    by (simp add: example_message_def)
  from loop1 try1 res2 have exi: "\<exists>d1 pc1 tc1.
         process_loop ?ev1 2 [?g1] (example_db, 0, 0) = Inr (d1, pc1, tc1)
         \<and> process_try ?ev1 example_db ?user = Inr (d1, pc1, tc1)
         \<and> process_emails ?ev1 example_db 2
             = (d1, (ProcessedBody ''Emails processed successfully'' pc1 tc1, 200))" by blast
  from not200 undone ex example_valid [of "''g2''"] add loop example_user ptry run env1(3) exi
    is200 k1 k2
  show ?thesis by (simp del: process_loop.simps)
qed

subsection \<open>The unique \<open>gmail_id\<close>\<close>

text \<open>
  C10. The table of emails keeps \<open>gmail_id\<close> unique over all users: an insert goes
  through only when no row has the \<open>gmail_id\<close>, so a table without two rows of one
  \<open>gmail_id\<close> is again such a table after any request. The check before the insert looks
  for the pair of \<open>gmail_id\<close> and \<open>user_id\<close> only: when a user fetches a valid message
  whose \<open>gmail_id\<close> another user has stored, the check finds nothing, the insert fails,
  and the request ends with the error of the constraint and the database unchanged.
\<close>

theorem gmail_id_globally_unique:
  "(distinct (map e_gmail_id (db_emails d)) \<longrightarrow>
      distinct (map e_gmail_id (db_emails (fst (process_emails ev d uid)))))
   \<and> (add_email d r = Inr (d', i) \<longrightarrow> e_gmail_id r \<notin> set (map e_gmail_id (db_emails d)))
   \<and> (find (\<lambda>u. u_id u = uid) (db_users d) = Some user \<and> u_gmail_connected user
        \<and> gmail_build ev user = None \<and> ai_init ev = None
        \<and> gmail_fetch ev user (max_emails ev) = Inr ms \<and> m \<in> set ms
        \<and> validate_email_content (m_subject m) (m_body m) = Inr vc
        \<and> row \<in> set (db_emails d) \<and> e_gmail_id row = m_gmail_id m \<and> e_user_id row \<noteq> uid
        \<and> existing_email d (m_gmail_id m) uid = None \<longrightarrow>
          process_emails ev d uid
            = (d, (ErrorBody ''UNIQUE constraint failed: emails.gmail_id'', 500)))"
proof -
  have a: "distinct (map e_gmail_id (db_emails d)) \<longrightarrow>
      distinct (map e_gmail_id (db_emails (fst (process_emails ev d uid))))"
  proof
    assume dist: "distinct (map e_gmail_id (db_emails d))"
    show "distinct (map e_gmail_id (db_emails (fst (process_emails ev d uid))))"
    proof (cases rule: process_emails_outcome [of ev d uid])
      case refused
      with dist show ?thesis by simp
    next
      case (rolled_back user e)
      with dist show ?thesis by simp
    next
      case (committed user d1 pc1 tc1)
      from process_try_Inr [OF committed(3)] obtain fetched where
        "process_loop ev (u_id user) fetched (d, 0, 0) = Inr (d1, pc1, tc1)" by blast
      from process_loop_Inr [OF this] obtain added where
        k: "email_keys d1 = email_keys d @ added" "distinct (map fst added)"
          "fst ` set added \<inter> fst ` set (email_keys d) = {}" by blast
      from dist have "distinct (map fst (email_keys d))" by (simp add: gmail_ids_keys)
      with k have "distinct (map fst (email_keys d1))" by auto
      hence "distinct (map e_gmail_id (db_emails d1))" by (simp add: gmail_ids_keys)
      with committed(4) show ?thesis by simp
    qed
  qed
  have b: "add_email d r = Inr (d', i) \<longrightarrow> e_gmail_id r \<notin> set (map e_gmail_id (db_emails d))"
    by (auto simp: add_email_def split: if_splits)
  have c: "find (\<lambda>u. u_id u = uid) (db_users d) = Some user \<and> u_gmail_connected user
        \<and> gmail_build ev user = None \<and> ai_init ev = None
        \<and> gmail_fetch ev user (max_emails ev) = Inr ms \<and> m \<in> set ms
        \<and> validate_email_content (m_subject m) (m_body m) = Inr vc
        \<and> row \<in> set (db_emails d) \<and> e_gmail_id row = m_gmail_id m \<and> e_user_id row \<noteq> uid
        \<and> existing_email d (m_gmail_id m) uid = None \<longrightarrow>
          process_emails ev d uid
            = (d, (ErrorBody ''UNIQUE constraint failed: emails.gmail_id'', 500))"
  proof
    assume h: "find (\<lambda>u. u_id u = uid) (db_users d) = Some user \<and> u_gmail_connected user
        \<and> gmail_build ev user = None \<and> ai_init ev = None
        \<and> gmail_fetch ev user (max_emails ev) = Inr ms \<and> m \<in> set ms
        \<and> validate_email_content (m_subject m) (m_body m) = Inr vc
        \<and> row \<in> set (db_emails d) \<and> e_gmail_id row = m_gmail_id m \<and> e_user_id row \<noteq> uid
        \<and> existing_email d (m_gmail_id m) uid = None"
    hence user: "find (\<lambda>u. u_id u = uid) (db_users d) = Some user" "u_gmail_connected user"
      and env: "gmail_build ev user = None" "ai_init ev = None"
        "gmail_fetch ev user (max_emails ev) = Inr ms"
      and m: "m \<in> set ms" "validate_email_content (m_subject m) (m_body m) = Inr vc"
      and row: "row \<in> set (db_emails d)" "e_gmail_id row = m_gmail_id m"
      and nokey: "existing_email d (m_gmail_id m) uid = None" by simp_all
    from row have "m_gmail_id m \<in> set (map e_gmail_id (db_emails d))" by force
    hence held: "m_gmail_id m \<in> fst ` set (email_keys d)" by (simp add: gmail_ids_keys)
    from nokey have "(m_gmail_id m, uid) \<notin> set (email_keys d)"
      by (simp add: existing_email_keys)
    from process_loop_foreign [OF m held this]
    have "process_loop ev uid ms (d, 0, 0)
        = Inl (IntegrityError ''UNIQUE constraint failed: emails.gmail_id'')" .
    with env find_user_id [OF user(1)]
    have "process_try ev d user = Inl (IntegrityError ''UNIQUE constraint failed: emails.gmail_id'')"
      by (simp add: process_try_loop)
    with process_emails_Inl [OF user] show "process_emails ev d uid
            = (d, (ErrorBody ''UNIQUE constraint failed: emails.gmail_id'', 500))" by simp
  qed
  from a b c show ?thesis by blast
qed

theorem gmail_id_globally_unique_witness:
  "distinct (map e_gmail_id (db_emails example_db))
   \<and> distinct (map e_gmail_id (db_emails (fst (process_emails
        (example_env [example_message ''g1'']) example_db 2))))
   \<and> add_email example_db (new_email 2 (example_message ''g1'') \<lparr>c_subject = ''Hi'', c_body = []\<rparr> 1000)
       = Inr (example_db\<lparr>db_emails := db_emails example_db @
                [(new_email 2 (example_message ''g1'') \<lparr>c_subject = ''Hi'', c_body = []\<rparr> 1000)
                   \<lparr>e_id := 2\<rparr>]\<rparr>, 2)
   \<and> ''g1'' \<notin> set (map e_gmail_id (db_emails example_db))
   \<and> find (\<lambda>u. u_id u = 2) (db_users example_db) = Some \<lparr>u_id = 2, u_gmail_connected = True\<rparr>
   \<and> gmail_fetch (example_env [example_message ''g1'', example_message ''g2''])
        \<lparr>u_id = 2, u_gmail_connected = True\<rparr> 50
       = Inr [example_message ''g1'', example_message ''g2'']
   \<and> hd (db_emails example_db) \<in> set (db_emails example_db)
   \<and> e_gmail_id (hd (db_emails example_db)) = m_gmail_id (example_message ''g2'')
   \<and> e_user_id (hd (db_emails example_db)) \<noteq> 2
   \<and> existing_email example_db (m_gmail_id (example_message ''g2'')) 2 = None
   \<and> process_emails (example_env [example_message ''g1'', example_message ''g2'']) example_db 2
       = (example_db, (ErrorBody ''UNIQUE constraint failed: emails.gmail_id'', 500))"
proof -
  let ?m = "example_message ''g2''"
  let ?ms = "[example_message ''g1'', ?m]"
  let ?vc = "\<lparr>c_subject = ''Hi'', c_body = []\<rparr>"
  let ?user = "\<lparr>u_id = 2, u_gmail_connected = True\<rparr>"
  let ?r = "new_email 2 (example_message ''g1'') ?vc 1000"
  let ?d1 = "example_db\<lparr>db_emails := db_emails example_db @ [?r\<lparr>e_id := 2\<rparr>]\<rparr>"
  have dist: "distinct (map e_gmail_id (db_emails example_db))"
    by (simp add: example_db_def)
  have add: "add_email example_db ?r = Inr (?d1, 2)"
    by (simp add: add_email_succeeds example_keys new_email_def example_message_def)
       (simp add: example_db_def next_id_def)
  have fetch: "gmail_fetch (example_env ?ms) ?user 50 = Inr ?ms"
    by (simp add: example_env_def)
  have env: "gmail_build (example_env ?ms) ?user = None" "ai_init (example_env ?ms) = None"
    "max_emails (example_env ?ms) = 50"
    by (simp_all add: example_env_def)
  have row: "hd (db_emails example_db) \<in> set (db_emails example_db)"
    "e_gmail_id (hd (db_emails example_db)) = m_gmail_id ?m"
    "e_user_id (hd (db_emails example_db)) \<noteq> 2"
    by (simp_all add: example_db_def example_message_def)
  have ex: "existing_email example_db (m_gmail_id ?m) 2 = None"
    by (simp add: existing_email_keys example_keys)
  note one = gmail_id_globally_unique [where d = example_db
      and ev = "example_env [example_message ''g1'']" and uid = 2 and r = ?r and d' = ?d1 and i = 2
      and user = ?user and ms = ?ms and m = ?m and vc = ?vc and row = "hd (db_emails example_db)"]
  note two = gmail_id_globally_unique [where d = example_db
      and ev = "example_env ?ms" and uid = 2 and r = ?r and d' = ?d1 and i = 2
      and user = ?user and ms = ?ms and m = ?m and vc = ?vc and row = "hd (db_emails example_db)"]
  from one dist have d1: "distinct (map e_gmail_id (db_emails (fst (process_emails
        (example_env [example_message ''g1'']) example_db 2))))" by blast
  from one add have "e_gmail_id ?r \<notin> set (map e_gmail_id (db_emails example_db))" by blast
  hence fresh: "''g1'' \<notin> set (map e_gmail_id (db_emails example_db))"
    by (simp add: new_email_def example_message_def)
  from two example_user fetch env row ex example_valid [of "''g2''"]
  have "process_emails (example_env ?ms) example_db 2
       = (example_db, (ErrorBody ''UNIQUE constraint failed: emails.gmail_id'', 500))"
    by simp
  with dist d1 add fresh example_user fetch row ex show ?thesis by simp
qed

subsection \<open>What the caller sees of a failed run\<close>

text \<open>
  C9 as stated fails. A run that ends because the credential cannot be refreshed and a
  run that ends for an unrelated reason get the very same response, the status 500 with
  the text of the exception; a failure of the fetch gets the same status and the same
  kind of body. Nothing in the response names a kind of error.
\<close>

theorem run_level_error_kind_counterexample:
  "process_emails ((example_env [])\<lparr>gmail_build := (\<lambda>u. Some (RefreshError ''failed''))\<rparr>)
       example_db 2
     = (example_db, (ErrorBody ''failed'', 500))
   \<and> process_emails ((example_env [])\<lparr>ai_init := Some (PyException ''failed'')\<rparr>) example_db 2
     = (example_db, (ErrorBody ''failed'', 500))
   \<and> process_emails ((example_env [])\<lparr>gmail_fetch := (\<lambda>u n. Inl (HttpError ''<HttpError 403>''))\<rparr>)
       example_db 2
     = (example_db, (ErrorBody ''<HttpError 403>'', 500))"
  by (simp add: process_emails_def example_user process_try_def example_env_def)

text \<open>
  C9, amended. A request over the rate limit is refused with the status 429 and the
  body \<open>Rate limit exceeded\<close>, and the handler is not run. A run that an exception
  ends, be it of the credential, of the fetch or any other, is answered with the status
  500 and the text of the exception and nothing else, and the database is left as it
  was: the response tells the caller no kind of error.
\<close>

theorem run_level_errors_surfaced:
  "(\<not> snd (is_allowed cl now (''user_'' @ digits uid) 5 300) \<longrightarrow>
      process_route ev now uid (cl, d)
        = ((fst (is_allowed cl now (''user_'' @ digits uid) 5 300), d),
           (RateLimitBody ''Rate limit exceeded'' 5 300, 429)))
   \<and> (find (\<lambda>u. u_id u = uid) (db_users d) = Some user \<and> u_gmail_connected user
        \<and> gmail_build ev user = Some e \<longrightarrow>
          process_emails ev d uid = (d, (ErrorBody (str_exn e), 500)))
   \<and> (find (\<lambda>u. u_id u = uid) (db_users d) = Some user \<and> u_gmail_connected user
        \<and> gmail_build ev user = None \<and> ai_init ev = None
        \<and> gmail_fetch ev user (max_emails ev) = Inl e \<longrightarrow>
          process_emails ev d uid = (d, (ErrorBody (str_exn e), 500)))
   \<and> (find (\<lambda>u. u_id u = uid) (db_users d) = Some user \<and> u_gmail_connected user
        \<and> process_try ev d user = Inl e \<longrightarrow>
          process_emails ev d uid = (d, (ErrorBody (str_exn e), 500)))"
proof -
  have a: "\<not> snd (is_allowed cl now (''user_'' @ digits uid) 5 300) \<longrightarrow>
      process_route ev now uid (cl, d)
        = ((fst (is_allowed cl now (''user_'' @ digits uid) 5 300), d),
           (RateLimitBody ''Rate limit exceeded'' 5 300, 429))"
    by (cases "is_allowed cl now (''user_'' @ digits uid) 5 300")
       (simp add: process_route_def ratelimit_def)
  have b: "find (\<lambda>u. u_id u = uid) (db_users d) = Some user \<and> u_gmail_connected user
        \<and> gmail_build ev user = Some e \<longrightarrow>
          process_emails ev d uid = (d, (ErrorBody (str_exn e), 500))"
    by (simp add: process_emails_def process_try_def)
  have c: "find (\<lambda>u. u_id u = uid) (db_users d) = Some user \<and> u_gmail_connected user
        \<and> gmail_build ev user = None \<and> ai_init ev = None
        \<and> gmail_fetch ev user (max_emails ev) = Inl e \<longrightarrow>
          process_emails ev d uid = (d, (ErrorBody (str_exn e), 500))"
    by (simp add: process_emails_def process_try_def)
  have d: "find (\<lambda>u. u_id u = uid) (db_users d) = Some user \<and> u_gmail_connected user
        \<and> process_try ev d user = Inl e \<longrightarrow>
          process_emails ev d uid = (d, (ErrorBody (str_exn e), 500))"
    by (simp add: process_emails_Inl)
  from a b c d show ?thesis by blast
qed

theorem run_level_errors_surfaced_witness:
  "\<not> snd (is_allowed ((\<lambda>k. [])(''user_2'' := [0, 0, 0, 0, 0])) 10 (''user_'' @ digits 2) 5 300)
   \<and> process_route (example_env []) 10 2 ((\<lambda>k. [])(''user_2'' := [0, 0, 0, 0, 0]), example_db)
       = (((\<lambda>k. [])(''user_2'' := [0, 0, 0, 0, 0]), example_db),
          (RateLimitBody ''Rate limit exceeded'' 5 300, 429))
   \<and> find (\<lambda>u. u_id u = 2) (db_users example_db) = Some \<lparr>u_id = 2, u_gmail_connected = True\<rparr>
   \<and> process_emails ((example_env [])\<lparr>gmail_build := (\<lambda>u. Some (RefreshError ''invalid_grant''))\<rparr>)
        example_db 2
       = (example_db, (ErrorBody ''invalid_grant'', 500))
   \<and> process_emails ((example_env [])\<lparr>gmail_fetch := (\<lambda>u n. Inl (HttpError ''<HttpError 403>''))\<rparr>)
        example_db 2
       = (example_db, (ErrorBody ''<HttpError 403>'', 500))
   \<and> process_try (example_env [example_message ''g2'']) example_db
          \<lparr>u_id = 2, u_gmail_connected = True\<rparr>
        = Inl (IntegrityError ''UNIQUE constraint failed: emails.gmail_id'')
   \<and> process_emails (example_env [example_message ''g2'']) example_db 2
       = (example_db, (ErrorBody ''UNIQUE constraint failed: emails.gmail_id'', 500))"
proof -
  let ?cl = "((\<lambda>k. [])(''user_2'' := [0, 0, 0, 0, 0])) :: clients"
  let ?user = "\<lparr>u_id = 2, u_gmail_connected = True\<rparr>"
  let ?ev1 = "(example_env [])\<lparr>gmail_build := (\<lambda>u. Some (RefreshError ''invalid_grant''))\<rparr>"
  let ?ev2 = "(example_env [])\<lparr>gmail_fetch := (\<lambda>u n. Inl (HttpError ''<HttpError 403>''))\<rparr>"
  let ?ev3 = "example_env [example_message ''g2'']"
  let ?err = "IntegrityError ''UNIQUE constraint failed: emails.gmail_id''"
  have key: "''user_'' @ digits 2 = ''user_2''" by (simp add: digits.simps)
  have gate: "is_allowed ?cl 10 ''user_2'' 5 300 = (?cl, False)"
    by (simp add: is_allowed_def)
  have "process_loop ?ev3 2 [example_message ''g2''] (example_db, 0, 0) = Inl ?err"
    by (rule process_loop_foreign [where m = "example_message ''g2''", OF _ example_valid])
       (simp_all add: example_keys, simp_all add: example_message_def)
  hence ptry: "process_try ?ev3 example_db ?user = Inl ?err"
    by (simp add: example_try)
  note rate = run_level_errors_surfaced [where cl = ?cl and now = 10 and uid = 2
      and ev = "example_env []" and d = example_db and user = ?user and e = ?err]
  note auth = run_level_errors_surfaced [where cl = ?cl and now = 10 and uid = 2
      and ev = ?ev1 and d = example_db and user = ?user and e = "RefreshError ''invalid_grant''"]
  note prov = run_level_errors_surfaced [where cl = ?cl and now = 10 and uid = 2
      and ev = ?ev2 and d = example_db and user = ?user and e = "HttpError ''<HttpError 403>''"]
  note pers = run_level_errors_surfaced [where cl = ?cl and now = 10 and uid = 2
      and ev = ?ev3 and d = example_db and user = ?user and e = ?err]
  from rate key gate have r1: "process_route (example_env []) 10 2 (?cl, example_db)
       = ((?cl, example_db), (RateLimitBody ''Rate limit exceeded'' 5 300, 429))" by simp
  from auth example_user have r2: "process_emails ?ev1 example_db 2
       = (example_db, (ErrorBody ''invalid_grant'', 500))" by (simp add: example_env_def)
  from prov example_user have r3: "process_emails ?ev2 example_db 2
       = (example_db, (ErrorBody ''<HttpError 403>'', 500))" by (simp add: example_env_def)
  from pers example_user ptry have r4: "process_emails ?ev3 example_db 2
       = (example_db, (ErrorBody ''UNIQUE constraint failed: emails.gmail_id'', 500))" by simp
  from key gate r1 r2 r3 r4 example_user ptry show ?thesis by simp
qed

subsection \<open>Clamping of the extracted tasks\<close>









subsection \<open>Descriptions over the cap\<close>









subsection \<open>Parsing the answer of the completion service\<close>

lemma unfence_fenced: "strip r = ''```json'' @ b @ ''```'' \<Longrightarrow> unfence r = strip b"
  by (simp add: unfence_def startswith_def endswith_def)

lemma unfence_plain:
  "\<not> startswith (strip r) ''```json'' \<Longrightarrow> \<not> endswith (strip r) ''```'' \<Longrightarrow>
     unfence r = strip r"
  by (simp add: unfence_def strip_strip)

lemma process_loop_no_tasks:
  assumes "validate_email_content (m_subject m) (m_body m) = Inr vc"
    and "m_gmail_id m \<notin> set (map e_gmail_id (db_emails d))"
    and "extract_tasks (ai_complete ev) (json_loads ev) (m_subject m) (m_body m) (m_sender m) = []"
  shows "process_loop ev uid (m # ms) (d, pc, tc)
     = process_loop ev uid ms
         (mark_processed (utcnow ev) (next_id (map e_id (db_emails d)))
            (d\<lparr>db_emails := db_emails d @
                 [(new_email uid m vc (utcnow ev))\<lparr>e_id := next_id (map e_id (db_emails d))\<rparr>]\<rparr>),
          Suc pc, tc)"
proof -
  from assms(2) have fresh: "m_gmail_id m \<notin> fst ` set (email_keys d)"
    by (simp add: gmail_ids_keys)
  hence "(m_gmail_id m, uid) \<notin> set (email_keys d)" by force
  hence ex: "existing_email d (m_gmail_id m) uid = None" by (simp add: existing_email_keys)
  have "e_gmail_id (new_email uid m vc (utcnow ev)) = m_gmail_id m" by (simp add: new_email_def)
  with fresh have "add_email d (new_email uid m vc (utcnow ev))
      = Inr (d\<lparr>db_emails := db_emails d @
                 [(new_email uid m vc (utcnow ev))\<lparr>e_id := next_id (map e_id (db_emails d))\<rparr>]\<rparr>,
             next_id (map e_id (db_emails d)))"
    by (simp add: add_email_succeeds)
  with ex assms(1,3) show ?thesis by simp
qed

text \<open>
  C8. The parsing of an answer is total and defensive. The text given to \<open>json.loads\<close>
  is the answer stripped, without a leading \<open>```json\<close> and a trailing \<open>```\<close> where
  they are present, and stripped again. Whatever is raised while parsing (a
  \<open>JSONDecodeError\<close> of \<open>json.loads\<close> or any other exception) the result is the empty
  list, and so is the result of \<open>extract_tasks\<close> when the call of the service raises. A
  parse failure never ends the loop over the messages: the only exception that leaves
  the loop is the one of the insert of an email row, and a message for which no task
  is extracted is stored, marked as processed, and the loop goes on.
\<close>

theorem parse_ai_response_defensive:
  "(strip r = ''```json'' @ b @ ''```'' \<longrightarrow> unfence r = strip b)
   \<and> (\<not> startswith (strip r) ''```json'' \<and> \<not> endswith (strip r) ''```'' \<longrightarrow>
        unfence r = strip r)
   \<and> (loads (unfence r) = Inl e \<longrightarrow> parse_ai_response loads (Some r) = [])
   \<and> (loads (unfence r) = Inr j \<longrightarrow>
        parse_ai_try loads (Some r)
          = (case py_iter j of Inl e \<Rightarrow> Inl e | Inr ts \<Rightarrow> parse_tasks_loop ts []))
   \<and> (parse_ai_try loads rt = Inl e \<longrightarrow> parse_ai_response loads rt = [])
   \<and> (completion subject sender (take 2000 body) = Inl e \<longrightarrow>
        extract_tasks completion loads subject body sender = [])
   \<and> (completion subject sender (take 2000 body) = Inr (Some r) \<and> loads (unfence r) = Inl e \<longrightarrow>
        extract_tasks completion loads subject body sender = [])
   \<and> (process_loop ev uid ms (d, pc, tc) = Inl e \<longrightarrow>
        e = IntegrityError ''UNIQUE constraint failed: emails.gmail_id'')
   \<and> (validate_email_content (m_subject m) (m_body m) = Inr vc
        \<and> m_gmail_id m \<notin> set (map e_gmail_id (db_emails d))
        \<and> extract_tasks (ai_complete ev) (json_loads ev) (m_subject m) (m_body m) (m_sender m) = []
        \<longrightarrow> process_loop ev uid (m # ms) (d, pc, tc)
             = process_loop ev uid ms
                 (mark_processed (utcnow ev) (next_id (map e_id (db_emails d)))
                    (d\<lparr>db_emails := db_emails d @
                        [(new_email uid m vc (utcnow ev))
                           \<lparr>e_id := next_id (map e_id (db_emails d))\<rparr>]\<rparr>),
                  Suc pc, tc))"
proof -
  have a: "strip r = ''```json'' @ b @ ''```'' \<longrightarrow> unfence r = strip b"
    using unfence_fenced by blast
  have b: "\<not> startswith (strip r) ''```json'' \<and> \<not> endswith (strip r) ''```'' \<longrightarrow>
        unfence r = strip r"
    using unfence_plain by blast
  have c: "loads (unfence r) = Inl e \<longrightarrow> parse_ai_response loads (Some r) = []"
    by (simp add: parse_ai_response_def parse_ai_try_def)
  have c': "loads (unfence r) = Inr j \<longrightarrow>
        parse_ai_try loads (Some r)
          = (case py_iter j of Inl e \<Rightarrow> Inl e | Inr ts \<Rightarrow> parse_tasks_loop ts [])"
    by (simp add: parse_ai_try_def)
  have d: "parse_ai_try loads rt = Inl e \<longrightarrow> parse_ai_response loads rt = []"
    by (simp add: parse_ai_response_def)
  have e: "completion subject sender (take 2000 body) = Inl e \<longrightarrow>
        extract_tasks completion loads subject body sender = []"
    by (simp add: extract_tasks_def)
  have f: "completion subject sender (take 2000 body) = Inr (Some r) \<and> loads (unfence r) = Inl e \<longrightarrow>
        extract_tasks completion loads subject body sender = []"
    by (simp add: extract_tasks_def parse_ai_response_def parse_ai_try_def)
  have g: "process_loop ev uid ms (d, pc, tc) = Inl e \<longrightarrow>
        e = IntegrityError ''UNIQUE constraint failed: emails.gmail_id''"
    using process_loop_Inl by blast
  have h: "validate_email_content (m_subject m) (m_body m) = Inr vc
        \<and> m_gmail_id m \<notin> set (map e_gmail_id (db_emails d))
        \<and> extract_tasks (ai_complete ev) (json_loads ev) (m_subject m) (m_body m) (m_sender m) = []
        \<longrightarrow> process_loop ev uid (m # ms) (d, pc, tc)
             = process_loop ev uid ms
                 (mark_processed (utcnow ev) (next_id (map e_id (db_emails d)))
                    (d\<lparr>db_emails := db_emails d @
                        [(new_email uid m vc (utcnow ev))
                           \<lparr>e_id := next_id (map e_id (db_emails d))\<rparr>]\<rparr>),
                  Suc pc, tc)"
    using process_loop_no_tasks by blast
  from a b c c' d e f g h show ?thesis by blast
qed


theorem parse_ai_response_defensive_witness:
  "unfence ''```json [] ```'' = ''[]''
   \<and> unfence '' oops '' = ''oops''
   \<and> example_loads (unfence '' oops '') = Inl (JSONDecodeError ''Expecting value'')
   \<and> parse_ai_response example_loads (Some '' oops '') = []
   \<and> example_loads (unfence ''```json [] ```'') = Inr (JArr [])
   \<and> parse_ai_try example_loads (Some ''```json [] ```'') = Inr []
   \<and> parse_ai_try example_loads None
        = Inl (AttributeError ''NoneType object has no attribute strip'')
   \<and> parse_ai_response example_loads None = []
   \<and> extract_tasks (\<lambda>subject sender body. Inl (PyException ''timeout'')) example_loads
        ''Hi'' [] ''Jane'' = []
   \<and> extract_tasks (\<lambda>subject sender body. Inr (Some '' oops '')) example_loads
        ''Hi'' [] ''Jane'' = []
   \<and> process_loop (example_env []) 2 [example_message ''g2''] (example_db, 0, 0)
        = Inl (IntegrityError ''UNIQUE constraint failed: emails.gmail_id'')
   \<and> process_loop ((example_env [])\<lparr>ai_complete := (\<lambda>subject sender body. Inr (Some '' oops ''))\<rparr>)
        2 [example_message ''g1''] (example_db, 0, 0)
        = Inr (mark_processed 1000 2
                 (example_db\<lparr>db_emails := db_emails example_db @
                    [(new_email 2 (example_message ''g1'') \<lparr>c_subject = ''Hi'', c_body = []\<rparr> 1000)
                       \<lparr>e_id := 2\<rparr>]\<rparr>), 1, 0)"
proof -
  let ?fenced = "''```json [] ```''"
  let ?bad = "'' oops ''"
  let ?down = "(\<lambda>subject sender body. Inl (PyException ''timeout''))
      :: string \<Rightarrow> string \<Rightarrow> string \<Rightarrow> exn + string option"
  let ?garbled = "(\<lambda>subject sender body. Inr (Some ?bad))
      :: string \<Rightarrow> string \<Rightarrow> string \<Rightarrow> exn + string option"
  let ?ev = "(example_env [])\<lparr>ai_complete := ?garbled\<rparr>"
  let ?m = "example_message ''g1''"
  let ?vc = "\<lparr>c_subject = ''Hi'', c_body = []\<rparr>"
  let ?err = "IntegrityError ''UNIQUE constraint failed: emails.gmail_id''"
  have s1: "strip ?fenced = ''```json'' @ '' [] '' @ ''```''" by (simp add: strip_def isspace_def)
  have s2: "strip '' [] '' = ''[]''" by (simp add: strip_def isspace_def)
  have s3: "strip ?bad = ''oops''" by (simp add: strip_def isspace_def)
  have s4: "\<not> startswith (strip ?bad) ''```json'' \<and> \<not> endswith (strip ?bad) ''```''"
    by (simp add: s3 startswith_def endswith_def)
  have foreign: "process_loop (example_env []) 2 [example_message ''g2''] (example_db, 0, 0) = Inl ?err"
    by (rule process_loop_foreign [where m = "example_message ''g2''", OF _ example_valid])
       (simp_all add: example_keys, simp_all add: example_message_def)
  have fresh: "m_gmail_id ?m \<notin> set (map e_gmail_id (db_emails example_db))"
    by (simp add: example_db_def example_message_def)
  have ids: "next_id (map e_id (db_emails example_db)) = 2"
    by (simp add: example_db_def next_id_def)
  note fenced = parse_ai_response_defensive [where r = ?fenced and b = "'' [] ''"
      and loads = example_loads and j = "JArr []" and e = ?err and rt = None
      and completion = ?down and subject = "''Hi''" and sender = "''Jane''" and body = "[]"
      and ev = "example_env []" and uid = 2 and ms = "[example_message ''g2'']"
      and d = example_db and pc = 0 and tc = 0 and m = ?m and vc = ?vc]
  note bad = parse_ai_response_defensive [where r = ?bad and b = "[]"
      and loads = example_loads and j = "JArr []" and e = "JSONDecodeError ''Expecting value''"
      and rt = "Some ?bad"
      and completion = ?garbled and subject = "''Hi''" and sender = "''Jane''" and body = "[]"
      and ev = ?ev and uid = 2 and ms = "[]"
      and d = example_db and pc = 0 and tc = 0 and m = ?m and vc = ?vc]
  note none = parse_ai_response_defensive [where r = ?bad and b = "[]"
      and loads = example_loads and j = "JArr []"
      and e = "AttributeError ''NoneType object has no attribute strip''" and rt = None
      and completion = ?down and subject = "''Hi''" and sender = "''Jane''" and body = "[]"
      and ev = ?ev and uid = 2 and ms = "[]"
      and d = example_db and pc = 0 and tc = 0 and m = ?m and vc = ?vc]
  note down = parse_ai_response_defensive [where r = ?bad and b = "[]"
      and loads = example_loads and j = "JArr []" and e = "PyException ''timeout''" and rt = None
      and completion = ?down and subject = "''Hi''" and sender = "''Jane''" and body = "[]"
      and ev = ?ev and uid = 2 and ms = "[]"
      and d = example_db and pc = 0 and tc = 0 and m = ?m and vc = ?vc]
  from fenced s1 s2 have u1: "unfence ?fenced = ''[]''" by simp
  from bad s4 s3 have u2: "unfence ?bad = ''oops''" by simp
  have l2: "example_loads (unfence ?bad) = Inl (JSONDecodeError ''Expecting value'')"
    by (simp add: u2 example_loads_def)
  have l1: "example_loads (unfence ?fenced) = Inr (JArr [])"
    by (simp add: u1 example_loads_def)
  from bad l2 have p2: "parse_ai_response example_loads (Some ?bad) = []" by blast
  from fenced l1 have p1: "parse_ai_try example_loads (Some ?fenced) = Inr []" by simp
  have n1: "parse_ai_try example_loads None
      = Inl (AttributeError ''NoneType object has no attribute strip'')"
    by (simp add: parse_ai_try_def)
  with none have n2: "parse_ai_response example_loads None = []" by blast
  from down have x1: "extract_tasks ?down example_loads ''Hi'' [] ''Jane'' = []" by simp
  from bad l2 have x2: "extract_tasks ?garbled example_loads ''Hi'' [] ''Jane'' = []" by simp
  hence x3: "extract_tasks (ai_complete ?ev) (json_loads ?ev) (m_subject ?m) (m_body ?m)
      (m_sender ?m) = []"
    by (simp add: example_env_def example_message_def)
  from bad example_valid [of "''g1''"] fresh x3
  have "process_loop ?ev 2 [?m] (example_db, 0, 0)
      = process_loop ?ev 2 []
          (mark_processed (utcnow ?ev) (next_id (map e_id (db_emails example_db)))
             (example_db\<lparr>db_emails := db_emails example_db @
                 [(new_email 2 ?m ?vc (utcnow ?ev))
                    \<lparr>e_id := next_id (map e_id (db_emails example_db))\<rparr>]\<rparr>), Suc 0, 0)"
    by blast
  hence run: "process_loop ?ev 2 [?m] (example_db, 0, 0)
      = Inr (mark_processed 1000 2
                 (example_db\<lparr>db_emails := db_emails example_db @
                    [(new_email 2 ?m ?vc 1000)\<lparr>e_id := 2\<rparr>]\<rparr>), 1, 0)"
    by (simp add: ids example_env_def)
  from u1 u2 l2 p2 l1 p1 n1 n2 x1 x2 foreign run show ?thesis by simp
qed

subsection \<open>The body of a message\<close>

lemma extract_parts_plain:
  "map_of kvs ''mimeType'' = Some (JStr ''text/plain'') \<Longrightarrow>
   map_of kvs ''body'' = Some (JObj bkvs) \<Longrightarrow> map_of bkvs ''data'' = Some x \<Longrightarrow>
     extract_parts dec (JObj kvs # rest) = (case dec x of Inl e \<Rightarrow> Inl e | Inr s \<Rightarrow> Inr (Some s))"
  by simp

lemma extract_parts_html:
  "map_of kvs ''mimeType'' = Some (JStr ''text/html'') \<Longrightarrow>
   map_of kvs ''body'' = Some (JObj bkvs) \<Longrightarrow> map_of bkvs ''data'' = Some x \<Longrightarrow>
     extract_parts dec (JObj kvs # rest)
       = (case dec x of Inl e \<Rightarrow> Inl e | Inr s \<Rightarrow> Inr (Some (strip (strip_tags s))))"
  by simp

lemma extract_parts_passed_over:
  "passed_over part \<Longrightarrow> extract_parts dec (part # rest) = extract_parts dec rest"
  by (auto simp: passed_over_def split: sum.splits if_splits)

lemma extract_parts_skip:
  "list_all passed_over pre \<Longrightarrow> extract_parts dec (pre @ rest) = extract_parts dec rest"
proof (induction pre)
  case Nil
  show ?case by simp
next
  case (Cons p pre)
  hence "passed_over p" and "list_all passed_over pre" by simp_all
  with Cons.IH show ?case by (simp only: append_Cons extract_parts_passed_over)
qed

lemma extract_body_parts:
  "map_of kvs ''parts'' = Some (JArr ps) \<Longrightarrow>
     extract_body dec (JObj kvs)
       = (case extract_parts dec ps of Inl e \<Rightarrow> [] | Inr None \<Rightarrow> [] | Inr (Some s) \<Rightarrow> s)"
  by (simp add: extract_body_def extract_body_try_def split: sum.splits option.splits)

lemma extract_body_simple:
  "map_of kvs ''parts'' = None \<Longrightarrow> map_of kvs ''body'' = Some (JObj bkvs) \<Longrightarrow>
   map_of bkvs ''data'' = Some x \<Longrightarrow>
     extract_body dec (JObj kvs) = (case dec x of Inl e \<Rightarrow> [] | Inr s \<Rightarrow> s)"
  by (simp add: extract_body_def extract_body_try_def split: sum.splits)

lemma example_decode_plain: "example_decode (JStr ''cGxhaW4='') = Inr ''plain''"
  by (simp add: example_decode_def b64_index_def char_of_def bit_Suc_0_iff)

lemma example_decode_html: "example_decode (JStr ''PHA-aHRtbDwvcD4='') = Inr ''<p>html</p>''"
  by (simp add: example_decode_def b64_index_def char_of_def bit_Suc_0_iff)

lemma strip_tags_html: "strip (strip_tags ''<p>html</p>'') = ''html''"
  by (simp add: strip_def isspace_def)

lemma example_html_first:
  "extract_body example_decode
      (example_payload [example_part ''text/html'' ''PHA-aHRtbDwvcD4='',
                        example_part ''text/plain'' ''cGxhaW4=''])
     = ''html''"
  by (simp add: extract_body_def extract_body_try_def example_payload_def example_part_def
      example_decode_html strip_tags_html del: strip_tags.simps)

text \<open>
  C7 as stated fails. The payload has a plain-text part, which decodes to \<open>plain\<close>,
  after an HTML part: the result is the text of the HTML part.
\<close>

theorem plain_text_preferred_counterexample:
  "extract_body example_decode
      (example_payload [example_part ''text/html'' ''PHA-aHRtbDwvcD4='',
                        example_part ''text/plain'' ''cGxhaW4=''])
     = ''html''
   \<and> example_decode (JStr ''cGxhaW4='') = Inr ''plain''
   \<and> example_decode (JStr ''PHA-aHRtbDwvcD4='') = Inr ''<p>html</p>''"
  using example_html_first example_decode_plain example_decode_html by simp

text \<open>
  C7, amended. For a multipart payload the body is taken from the first part, in the
  order of the payload, that is \<open>text/plain\<close> or \<open>text/html\<close> and has data: the decoded
  data of a plain part, the decoded data without its tags and stripped of an HTML part.
  Parts of another type, and parts of these types without data, are passed over; so
  the plain-text part is returned when no HTML part with data comes before it. When no
  part gives a text the result is the empty string, and so it is whenever anything
  raises (a missing key, data that cannot be decoded, a payload of the wrong shape); a
  payload without parts gives its decoded data.
\<close>

theorem extract_body_first_text_part:
  "(map_of kvs ''mimeType'' = Some (JStr ''text/plain'') \<and> map_of kvs ''body'' = Some (JObj bkvs)
      \<and> map_of bkvs ''data'' = Some x \<and> list_all passed_over pre \<longrightarrow>
        extract_parts dec (pre @ JObj kvs # rest)
          = (case dec x of Inl e \<Rightarrow> Inl e | Inr s \<Rightarrow> Inr (Some s)))
   \<and> (map_of kvs ''mimeType'' = Some (JStr ''text/html'') \<and> map_of kvs ''body'' = Some (JObj bkvs)
      \<and> map_of bkvs ''data'' = Some x \<and> list_all passed_over pre \<longrightarrow>
        extract_parts dec (pre @ JObj kvs # rest)
          = (case dec x of Inl e \<Rightarrow> Inl e | Inr s \<Rightarrow> Inr (Some (strip (strip_tags s)))))
   \<and> (list_all passed_over pre \<longrightarrow> extract_parts dec pre = Inr None)
   \<and> (map_of pkvs ''parts'' = Some (JArr ps) \<longrightarrow>
        extract_body dec (JObj pkvs)
          = (case extract_parts dec ps of Inl e \<Rightarrow> [] | Inr None \<Rightarrow> [] | Inr (Some s) \<Rightarrow> s))
   \<and> (map_of pkvs ''parts'' = None \<and> map_of pkvs ''body'' = Some (JObj bkvs)
      \<and> map_of bkvs ''data'' = Some x \<longrightarrow>
        extract_body dec (JObj pkvs) = (case dec x of Inl e \<Rightarrow> [] | Inr s \<Rightarrow> s))
   \<and> (extract_body_try dec payload = Inl e \<longrightarrow> extract_body dec payload = [])"
proof -
  have a: "map_of kvs ''mimeType'' = Some (JStr ''text/plain'') \<and> map_of kvs ''body'' = Some (JObj bkvs)
      \<and> map_of bkvs ''data'' = Some x \<and> list_all passed_over pre \<longrightarrow>
        extract_parts dec (pre @ JObj kvs # rest)
          = (case dec x of Inl e \<Rightarrow> Inl e | Inr s \<Rightarrow> Inr (Some s))"
  proof
    assume h: "map_of kvs ''mimeType'' = Some (JStr ''text/plain'') \<and> map_of kvs ''body'' = Some (JObj bkvs)
      \<and> map_of bkvs ''data'' = Some x \<and> list_all passed_over pre"
    hence "extract_parts dec (pre @ JObj kvs # rest) = extract_parts dec (JObj kvs # rest)"
      by (simp only: extract_parts_skip)
    with h show "extract_parts dec (pre @ JObj kvs # rest)
          = (case dec x of Inl e \<Rightarrow> Inl e | Inr s \<Rightarrow> Inr (Some s))"
      by (simp add: extract_parts_plain del: extract_parts.simps)
  qed
  have b: "map_of kvs ''mimeType'' = Some (JStr ''text/html'') \<and> map_of kvs ''body'' = Some (JObj bkvs)
      \<and> map_of bkvs ''data'' = Some x \<and> list_all passed_over pre \<longrightarrow>
        extract_parts dec (pre @ JObj kvs # rest)
          = (case dec x of Inl e \<Rightarrow> Inl e | Inr s \<Rightarrow> Inr (Some (strip (strip_tags s))))"
  proof
    assume h: "map_of kvs ''mimeType'' = Some (JStr ''text/html'') \<and> map_of kvs ''body'' = Some (JObj bkvs)
      \<and> map_of bkvs ''data'' = Some x \<and> list_all passed_over pre"
    hence "extract_parts dec (pre @ JObj kvs # rest) = extract_parts dec (JObj kvs # rest)"
      by (simp only: extract_parts_skip)
    with h show "extract_parts dec (pre @ JObj kvs # rest)
          = (case dec x of Inl e \<Rightarrow> Inl e | Inr s \<Rightarrow> Inr (Some (strip (strip_tags s))))"
      by (simp add: extract_parts_html del: extract_parts.simps)
  qed
  have c: "list_all passed_over pre \<longrightarrow> extract_parts dec pre = Inr None"
    using extract_parts_skip [of pre dec "[]"] by simp
  have d: "map_of pkvs ''parts'' = Some (JArr ps) \<longrightarrow>
        extract_body dec (JObj pkvs)
          = (case extract_parts dec ps of Inl e \<Rightarrow> [] | Inr None \<Rightarrow> [] | Inr (Some s) \<Rightarrow> s)"
    using extract_body_parts by blast
  have e: "map_of pkvs ''parts'' = None \<and> map_of pkvs ''body'' = Some (JObj bkvs)
      \<and> map_of bkvs ''data'' = Some x \<longrightarrow>
        extract_body dec (JObj pkvs) = (case dec x of Inl e \<Rightarrow> [] | Inr s \<Rightarrow> s)"
    using extract_body_simple by blast
  have f: "extract_body_try dec payload = Inl e \<longrightarrow> extract_body dec payload = []"
    by (simp add: extract_body_def)
  from a b c d e f show ?thesis by blast
qed

theorem extract_body_first_text_part_witness:
  "list_all passed_over [example_part ''image/png'' ''AAAA'',
                         JObj [(''mimeType'', JStr ''text/html''), (''body'', JObj [])]]
   \<and> extract_body example_decode
        (example_payload [example_part ''image/png'' ''AAAA'',
                          JObj [(''mimeType'', JStr ''text/html''), (''body'', JObj [])],
                          example_part ''text/plain'' ''cGxhaW4='',
                          example_part ''text/html'' ''PHA-aHRtbDwvcD4=''])
       = ''plain''
   \<and> extract_body example_decode
        (example_payload [example_part ''image/png'' ''AAAA'',
                          example_part ''text/html'' ''PHA-aHRtbDwvcD4='',
                          example_part ''text/plain'' ''cGxhaW4=''])
       = ''html''
   \<and> extract_body example_decode (example_payload [example_part ''image/png'' ''AAAA'']) = []
   \<and> extract_body example_decode
        (JObj [(''mimeType'', JStr ''text/plain''), (''body'', JObj [(''data'', JStr ''cGxhaW4='')])])
       = ''plain''
   \<and> extract_body_try example_decode (example_payload [JObj [(''body'', JObj [])]])
       = Inl (KeyError ''mimeType'')
   \<and> extract_body example_decode (example_payload [JObj [(''body'', JObj [])]]) = []"
proof -
  let ?png = "example_part ''image/png'' ''AAAA''"
  let ?empty = "JObj [(''mimeType'', JStr ''text/html''), (''body'', JObj [])]"
  let ?plain = "[(''mimeType'', JStr ''text/plain''), (''body'', JObj [(''data'', JStr ''cGxhaW4='')])]"
  let ?html = "[(''mimeType'', JStr ''text/html''), (''body'', JObj [(''data'', JStr ''PHA-aHRtbDwvcD4='')])]"
  let ?bad = "example_payload [JObj [(''body'', JObj [])]]"
  have po: "list_all passed_over [?png, ?empty]" "list_all passed_over [?png]"
    by (simp_all add: passed_over_def example_part_def)
  have parts: "\<And>ps. map_of [(''mimeType'', JStr ''multipart/alternative''), (''parts'', JArr ps)]
      ''parts'' = Some (JArr ps)" by simp
  have raised: "extract_body_try example_decode ?bad = Inl (KeyError ''mimeType'')"
    by (simp add: extract_body_try_def example_payload_def)
  note one = extract_body_first_text_part [where kvs = ?plain
      and bkvs = "[(''data'', JStr ''cGxhaW4='')]" and x = "JStr ''cGxhaW4=''"
      and pre = "[?png, ?empty]" and dec = example_decode
      and rest = "[example_part ''text/html'' ''PHA-aHRtbDwvcD4='']"
      and pkvs = "[(''mimeType'', JStr ''multipart/alternative''),
         (''parts'', JArr [?png, ?empty, JObj ?plain, example_part ''text/html'' ''PHA-aHRtbDwvcD4=''])]"
      and ps = "[?png, ?empty, JObj ?plain, example_part ''text/html'' ''PHA-aHRtbDwvcD4='']"
      and payload = ?bad and e = "KeyError ''mimeType''"]
  note two = extract_body_first_text_part [where kvs = ?html
      and bkvs = "[(''data'', JStr ''PHA-aHRtbDwvcD4='')]" and x = "JStr ''PHA-aHRtbDwvcD4=''"
      and pre = "[?png]" and dec = example_decode
      and rest = "[example_part ''text/plain'' ''cGxhaW4='']"
      and pkvs = "[(''mimeType'', JStr ''multipart/alternative''),
         (''parts'', JArr [?png, JObj ?html, example_part ''text/plain'' ''cGxhaW4=''])]"
      and ps = "[?png, JObj ?html, example_part ''text/plain'' ''cGxhaW4='']"
      and payload = ?bad and e = "KeyError ''mimeType''"]
  note three = extract_body_first_text_part [where kvs = ?plain
      and bkvs = "[(''data'', JStr ''cGxhaW4='')]" and x = "JStr ''cGxhaW4=''"
      and pre = "[?png]" and dec = example_decode and rest = "[]"
      and pkvs = "[(''mimeType'', JStr ''multipart/alternative''), (''parts'', JArr [?png])]"
      and ps = "[?png]" and payload = ?bad and e = "KeyError ''mimeType''"]
  note four = extract_body_first_text_part [where kvs = ?plain
      and bkvs = "[(''data'', JStr ''cGxhaW4='')]" and x = "JStr ''cGxhaW4=''"
      and pre = "[?png]" and dec = example_decode and rest = "[]"
      and pkvs = ?plain and ps = "[?png]" and payload = ?bad and e = "KeyError ''mimeType''"]
  from one po(1) example_decode_plain
  have r1: "extract_body example_decode
        (example_payload [?png, ?empty, example_part ''text/plain'' ''cGxhaW4='',
                          example_part ''text/html'' ''PHA-aHRtbDwvcD4=''])
       = ''plain''"
    by (simp add: example_payload_def example_part_def del: extract_parts.simps)
  from two po(2) example_decode_html strip_tags_html
  have r2: "extract_body example_decode
        (example_payload [?png, example_part ''text/html'' ''PHA-aHRtbDwvcD4='',
                          example_part ''text/plain'' ''cGxhaW4=''])
       = ''html''"
    by (simp add: example_payload_def example_part_def del: extract_parts.simps strip_tags.simps)
  from three po(2)
  have r3: "extract_body example_decode (example_payload [?png]) = []"
    by (simp add: example_payload_def del: extract_parts.simps)
  from four example_decode_plain
  have r4: "extract_body example_decode (JObj ?plain) = ''plain''" by simp
  from four raised have r5: "extract_body example_decode ?bad = []" by blast
  from po(1) r1 r2 r3 r4 raised r5 show ?thesis by simp
qed

subsection \<open>The encryption of tokens\<close>

lemma example_crypto_inverse:
  "fernet_decrypt example_crypto (fernet_encrypt example_crypto seed bs) = Inr bs"
  by (simp add: example_crypto_def)

lemma example_crypto_codec:
  "\<exists>bs. str_encode example_crypto s = Inr bs \<and> bytes_decode example_crypto bs = Inr s"
  by (simp add: example_crypto_def)

lemma example_crypto_text:
  "\<exists>t. t \<noteq> [] \<and> bytes_decode example_crypto (fernet_encrypt example_crypto seed bs) = Inr t
      \<and> str_encode example_crypto t = Inr (fernet_encrypt example_crypto seed bs)"
  by (simp add: example_crypto_def)

text \<open>
  C4. The encryption of tokens round-trips and the decryption never raises. Of the
  libraries it is taken that the cipher decrypts what it has encrypted, that the codec
  decodes what it has encoded, and that a token of the cipher is a text that is not
  empty. Then for every string \<open>s\<close> that is not empty \<open>encrypt_token\<close> gives a token, and
  \<open>decrypt_token\<close> of that token gives \<open>s\<close>. Without any assumption: when the cipher
  refuses a text, or anything else raises in the \<open>try\<close> block, \<open>decrypt_token\<close> gives
  \<open>None\<close>; its result is always a value.
\<close>

theorem token_encryption_round_trip:
  "((\<forall>seed bs. fernet_decrypt lib (fernet_encrypt lib seed bs) = Inr bs)
      \<and> (\<forall>s. \<exists>bs. str_encode lib s = Inr bs \<and> bytes_decode lib bs = Inr s)
      \<and> (\<forall>seed bs. \<exists>t. t \<noteq> [] \<and> bytes_decode lib (fernet_encrypt lib seed bs) = Inr t
            \<and> str_encode lib t = Inr (fernet_encrypt lib seed bs))
      \<and> s \<noteq> [] \<longrightarrow>
        (\<exists>t. encrypt_token lib seed (Some s) = Inr (Some t) \<and> decrypt_token lib (Some t) = Some s))
   \<and> (str_encode lib ct = Inr cbs \<and> fernet_decrypt lib cbs = Inl e \<longrightarrow>
        decrypt_token lib (Some ct) = None)
   \<and> (decrypt_try lib ct = Inl e \<longrightarrow> decrypt_token lib (Some ct) = None)
   \<and> decrypt_token lib None = None \<and> decrypt_token lib (Some []) = None
   \<and> encrypt_token lib seed None = Inr None \<and> encrypt_token lib seed (Some []) = Inr None"
proof -
  have round: "(\<forall>seed bs. fernet_decrypt lib (fernet_encrypt lib seed bs) = Inr bs)
      \<and> (\<forall>s. \<exists>bs. str_encode lib s = Inr bs \<and> bytes_decode lib bs = Inr s)
      \<and> (\<forall>seed bs. \<exists>t. t \<noteq> [] \<and> bytes_decode lib (fernet_encrypt lib seed bs) = Inr t
            \<and> str_encode lib t = Inr (fernet_encrypt lib seed bs))
      \<and> s \<noteq> [] \<longrightarrow>
        (\<exists>t. encrypt_token lib seed (Some s) = Inr (Some t) \<and> decrypt_token lib (Some t) = Some s)"
  proof
    assume h: "(\<forall>seed bs. fernet_decrypt lib (fernet_encrypt lib seed bs) = Inr bs)
      \<and> (\<forall>s. \<exists>bs. str_encode lib s = Inr bs \<and> bytes_decode lib bs = Inr s)
      \<and> (\<forall>seed bs. \<exists>t. t \<noteq> [] \<and> bytes_decode lib (fernet_encrypt lib seed bs) = Inr t
            \<and> str_encode lib t = Inr (fernet_encrypt lib seed bs))
      \<and> s \<noteq> []"
    then obtain bs where bs: "str_encode lib s = Inr bs" "bytes_decode lib bs = Inr s" by blast
    from h obtain t where t: "t \<noteq> []" "bytes_decode lib (fernet_encrypt lib seed bs) = Inr t"
      "str_encode lib t = Inr (fernet_encrypt lib seed bs)" by blast
    from h have inv: "fernet_decrypt lib (fernet_encrypt lib seed bs) = Inr bs" by blast
    from h bs(1) t(2) have "encrypt_token lib seed (Some s) = Inr (Some t)"
      by (simp add: encrypt_token_def truthy_def)
    moreover from t(1,3) inv bs(2) have "decrypt_token lib (Some t) = Some s"
      by (simp add: decrypt_token_def decrypt_try_def truthy_def)
    ultimately show "\<exists>t. encrypt_token lib seed (Some s) = Inr (Some t)
        \<and> decrypt_token lib (Some t) = Some s" by blast
  qed
  have refused: "str_encode lib ct = Inr cbs \<and> fernet_decrypt lib cbs = Inl e \<longrightarrow>
        decrypt_token lib (Some ct) = None"
    by (simp add: decrypt_token_def decrypt_try_def)
  have raised: "decrypt_try lib ct = Inl e \<longrightarrow> decrypt_token lib (Some ct) = None"
    by (simp add: decrypt_token_def)
  have empty: "decrypt_token lib None = None" "decrypt_token lib (Some []) = None"
    "encrypt_token lib seed None = Inr None" "encrypt_token lib seed (Some []) = Inr None"
    by (simp_all add: decrypt_token_def encrypt_token_def truthy_def)
  from round refused raised empty show ?thesis by blast
qed

theorem token_encryption_round_trip_witness:
  "(\<forall>seed bs. fernet_decrypt example_crypto (fernet_encrypt example_crypto seed bs) = Inr bs)
   \<and> (\<forall>s. \<exists>bs. str_encode example_crypto s = Inr bs \<and> bytes_decode example_crypto bs = Inr s)
   \<and> (\<forall>seed bs. \<exists>t. t \<noteq> []
         \<and> bytes_decode example_crypto (fernet_encrypt example_crypto seed bs) = Inr t
         \<and> str_encode example_crypto t = Inr (fernet_encrypt example_crypto seed bs))
   \<and> encrypt_token example_crypto 7 (Some ''tok'') = Inr (Some ''gAAAAAkot'')
   \<and> decrypt_token example_crypto (Some ''gAAAAAkot'') = Some ''tok''
   \<and> (\<exists>t. encrypt_token example_crypto 7 (Some ''tok'') = Inr (Some t)
         \<and> decrypt_token example_crypto (Some t) = Some ''tok'')
   \<and> str_encode example_crypto ''tampered'' = Inr ''tampered''
   \<and> fernet_decrypt example_crypto ''tampered'' = Inl (InvalidToken [])
   \<and> decrypt_try example_crypto ''tampered'' = Inl (InvalidToken [])
   \<and> decrypt_token example_crypto (Some ''tampered'') = None"
proof -
  have h1: "\<forall>seed bs. fernet_decrypt example_crypto (fernet_encrypt example_crypto seed bs) = Inr bs"
    using example_crypto_inverse by blast
  have h2: "\<forall>s. \<exists>bs. str_encode example_crypto s = Inr bs \<and> bytes_decode example_crypto bs = Inr s"
    using example_crypto_codec by blast
  have h3: "\<forall>seed bs. \<exists>t. t \<noteq> []
         \<and> bytes_decode example_crypto (fernet_encrypt example_crypto seed bs) = Inr t
         \<and> str_encode example_crypto t = Inr (fernet_encrypt example_crypto seed bs)"
    using example_crypto_text by blast
  have enc: "str_encode example_crypto ''tampered'' = Inr ''tampered''"
    and dec: "fernet_decrypt example_crypto ''tampered'' = Inl (InvalidToken [])"
    by (simp_all add: example_crypto_def)
  hence tried: "decrypt_try example_crypto ''tampered'' = Inl (InvalidToken [])"
    by (simp add: decrypt_try_def)
  have e1: "encrypt_token example_crypto 7 (Some ''tok'') = Inr (Some ''gAAAAAkot'')"
    by (simp add: encrypt_token_def truthy_def example_crypto_def)
  have d1: "decrypt_token example_crypto (Some ''gAAAAAkot'') = Some ''tok''"
    by (simp add: decrypt_token_def decrypt_try_def truthy_def example_crypto_def)
  note inst = token_encryption_round_trip [where lib = example_crypto and s = "''tok''"
      and seed = 7 and ct = "''tampered''" and cbs = "''tampered''" and e = "InvalidToken []"]
  from inst h1 h2 h3 have r: "\<exists>t. encrypt_token example_crypto 7 (Some ''tok'') = Inr (Some t)
         \<and> decrypt_token example_crypto (Some t) = Some ''tok''" by simp
  from inst enc dec have n: "decrypt_token example_crypto (Some ''tampered'') = None" by blast
  from h1 h2 h3 e1 d1 r enc dec tried n show ?thesis by blast
qed

end
